theory Spec2Isabelle
  imports Complex_Main "HOL-Library.Sublist" "HOL-Library.AList"
begin

section \<open>JavaScript values\<close>

text \<open>
  The values that cross the message channel and are kept in the store: what the
  structured-clone algorithm carries of plain data, as finite trees. A number that is
  carried as a value is never computed with; \<open>JNum\<close> holds the rational it denotes. An
  object is the list of its own properties.

  Structured clone keeps the sharing inside one message, and \<open>dbSet\<close> mutates one
  object of the request: the array given as \<open>options.acl.write\<close>. \<open>JAlias\<close> stands for
  a further reference to that very array, wherever else the request holds one (as
  \<open>options.acl.read\<close>, as the value, or inside them). No other object is mutated and
  no two objects are compared, so no other sharing can be observed. An array that
  contains itself is not a finite tree and is not modelled.
\<close>

datatype jsval =
    JUndefined
  | JNull
  | JBool bool
  | JNum rat
  | JStr string
  | JArr "jsval list"
  | JObj "(string \<times> jsval) list"
  | JAlias

text \<open>
  \<open>inline w v\<close>: the value \<open>v\<close> as it is read once the shared array holds \<open>w\<close>.
\<close>

fun inline :: "jsval \<Rightarrow> jsval \<Rightarrow> jsval" where
  "inline w JAlias = w"
| "inline w (JArr xs) = JArr (map (inline w) xs)"
| "inline w (JObj fs) = JObj (map (\<lambda>p. (fst p, inline w (snd p))) fs)"
| "inline w v = v"

fun alias_free :: "jsval \<Rightarrow> bool" where
  "alias_free JAlias = False"
| "alias_free (JArr xs) = list_all alias_free xs"
| "alias_free (JObj fs) = list_all (\<lambda>p. alias_free (snd p)) fs"
| "alias_free v = True"

text \<open>
  \<open>v?.p\<close> for the property names the code reads (\<open>acl\<close>, \<open>read\<close>, \<open>write\<close>): none of
  them is a property of a string, a number, a boolean or an array, so only an object
  can answer with something other than \<open>undefined\<close>.
\<close>

fun opt_chain :: "jsval \<Rightarrow> string \<Rightarrow> jsval" where
  "opt_chain (JObj fs) p = (case map_of fs p of Some v \<Rightarrow> v | None \<Rightarrow> JUndefined)"
| "opt_chain _ p = JUndefined"

text \<open>\<open>v ?? d\<close>: the default replaces \<open>undefined\<close> and \<open>null\<close> only.\<close>

definition nullish :: "jsval \<Rightarrow> jsval \<Rightarrow> jsval" where
  "nullish v d = (if v = JUndefined \<or> v = JNull then d else v)"

section \<open>JavaScript numbers\<close>

text \<open>
  A number the code computes with is an IEEE 754 double: a finite one, given by the
  rational it denotes (the two zeros are both \<open>Fin 0\<close>: the code cannot tell them
  apart), an infinity, or NaN.
\<close>

datatype jsnum = Fin rat | PInf | NInf | NaN

text \<open>Rounding to the nearest integer, a tie to the even one.\<close>

definition round_even :: "rat \<Rightarrow> int" where
  "round_even q =
     (let n = \<lfloor>q\<rfloor>; f = q - of_int n
      in if f < 1 / 2 then n else if 1 / 2 < f then n + 1 else if even n then n else n + 1)"

text \<open>\<open>lg_up r\<close> is the integer part of the binary logarithm of \<open>r \<ge> 1\<close>.\<close>

function lg_up :: "rat \<Rightarrow> nat" where
  "lg_up r = (if r < 2 then 0 else Suc (lg_up (r / 2)))"
  by pat_completeness auto
termination
proof (relation "measure (\<lambda>r. nat \<lfloor>r\<rfloor>)")
  show "wf (measure (\<lambda>r. nat \<lfloor>r\<rfloor>))" by simp
next
  fix r :: rat
  assume "\<not> r < 2"
  then have r: "2 \<le> r" by simp
  have "of_int \<lfloor>r / 2\<rfloor> \<le> r / 2" by (rule of_int_floor_le)
  also have "\<dots> \<le> r - 1" using r by simp
  also have "\<dots> < of_int \<lfloor>r\<rfloor>" by linarith
  finally have "\<lfloor>r / 2\<rfloor> < \<lfloor>r\<rfloor>" by simp
  moreover have "0 < \<lfloor>r\<rfloor>" using r by simp
  ultimately show "(r / 2, r) \<in> measure (\<lambda>r. nat \<lfloor>r\<rfloor>)" by simp
qed

declare lg_up.simps [simp del]

text \<open>The exponent \<open>e\<close> with \<open>2^e \<le> r < 2^(e+1)\<close>, for \<open>r > 0\<close>.\<close>

definition ilog2 :: "rat \<Rightarrow> int" where
  "ilog2 r =
     (if 1 \<le> r then int (lg_up r)
      else
        let k = lg_up (1 / r)
        in if r = 1 / 2 ^ k then - int k else - int k - 1)"

text \<open>
  The double an exact result is rounded to (binary64, round to nearest, ties to even):
  53 significant bits, exponents from -1022 (below, the spacing of the subnormals
  stays \<open>2^-1074\<close>), and an infinity once the rounded magnitude reaches \<open>2^1024\<close>.
\<close>

definition to_double :: "rat \<Rightarrow> jsnum" where
  "to_double x =
     (if x = 0 then Fin 0
      else
        let e = max (ilog2 \<bar>x\<bar>) (- 1022);
            u = power_int 2 (e - 52);
            y = of_int (round_even (x / u)) * u
        in if power_int 2 1024 \<le> \<bar>y\<bar> then (if 0 < x then PInf else NInf) else Fin y)"

text \<open>\<open>a * b\<close> and \<open>a + b\<close> on numbers.\<close>

fun js_mul :: "jsnum \<Rightarrow> jsnum \<Rightarrow> jsnum" where
  "js_mul NaN b = NaN"
| "js_mul a NaN = NaN"
| "js_mul (Fin a) (Fin b) = to_double (a * b)"
| "js_mul (Fin a) PInf = (if a = 0 then NaN else if 0 < a then PInf else NInf)"
| "js_mul (Fin a) NInf = (if a = 0 then NaN else if 0 < a then NInf else PInf)"
| "js_mul PInf (Fin b) = (if b = 0 then NaN else if 0 < b then PInf else NInf)"
| "js_mul NInf (Fin b) = (if b = 0 then NaN else if 0 < b then NInf else PInf)"
| "js_mul PInf PInf = PInf"
| "js_mul PInf NInf = NInf"
| "js_mul NInf PInf = NInf"
| "js_mul NInf NInf = PInf"

fun js_add :: "jsnum \<Rightarrow> jsnum \<Rightarrow> jsnum" where
  "js_add NaN b = NaN"
| "js_add a NaN = NaN"
| "js_add (Fin a) (Fin b) = to_double (a + b)"
| "js_add PInf NInf = NaN"
| "js_add NInf PInf = NaN"
| "js_add PInf b = PInf"
| "js_add a PInf = PInf"
| "js_add NInf b = NInf"
| "js_add a NInf = NInf"

text \<open>A number as a condition: false for the zeros and NaN.\<close>

fun num_truthy :: "jsnum \<Rightarrow> bool" where
  "num_truthy (Fin r) = (r \<noteq> 0)"
| "num_truthy NaN = False"
| "num_truthy _ = True"

text \<open>\<open>a < b\<close> on numbers; false whenever NaN is involved.\<close>

fun js_less :: "jsnum \<Rightarrow> jsnum \<Rightarrow> bool" where
  "js_less NaN b = False"
| "js_less a NaN = False"
| "js_less (Fin a) (Fin b) = (a < b)"
| "js_less NInf NInf = False"
| "js_less NInf b = True"
| "js_less a NInf = False"
| "js_less PInf b = False"
| "js_less a PInf = True"

section \<open>Exceptions\<close>

text \<open>
  What the code of the Storage Core can throw. \<open>PermissionDenied origin perm key\<close> is
  the \<open>new Error(...)\<close> of \<open>dbGet\<close>, \<open>dbSet\<close> and \<open>dbRemove\<close>; \<open>TypeError\<close> is the engine's
  exception for calling a method a value does not have; \<open>StoreFault name message\<close>
  is an exception raised by the Durable Store (IndexedDB), with the name and message
  it carries; \<open>SyntaxError\<close> is the \<open>DOMException\<close> of that name, which
  \<open>postMessage\<close> raises for a target origin that is not a URL.
\<close>

datatype exn =
    PermissionDenied string string string
  | TypeError string
  | StoreFault string string
  | SyntaxError string

fun exn_name :: "exn \<Rightarrow> string" where
  "exn_name (PermissionDenied origin perm k) = ''Error''"
| "exn_name (TypeError m) = ''TypeError''"
| "exn_name (StoreFault n m) = n"
| "exn_name (SyntaxError m) = ''SyntaxError''"

fun exn_message :: "exn \<Rightarrow> string" where
  "exn_message (PermissionDenied origin perm k) =
     ''Origin '' @ [CHR 0x27] @ origin @ [CHR 0x27] @ '' does not have '' @ perm @
     '' permission for key '' @ [CHR 0x27] @ k @ [CHR 0x27] @ ''.''"
| "exn_message (TypeError m) = m"
| "exn_message (StoreFault n m) = m"
| "exn_message (SyntaxError m) = m"

section \<open>The Durable Store\<close>

text \<open>
  A stored record, \<open>{key, value, acl: {read, write}, expiresAt}\<close>. The two ACL fields
  hold whatever the writer sent; \<open>expiresAt\<close> is a number or \<open>null\<close> (\<open>None\<close>).
\<close>

record item =
  item_key :: string
  item_value :: jsval
  acl_read :: jsval
  acl_write :: jsval
  expiresAt :: "jsnum option"

text \<open>
  The object store, keyed by \<open>key\<close> (\<open>keyPath: 'key'\<close>): a list of records, scanned in
  list order. \<open>put\<close> is an upsert, \<open>delete\<close> of an absent key does nothing. The list
  keeps the records in the order of their creation, where IndexedDB scans them in the
  order of their keys: only the order in which \<open>dbKeys\<close> lists keys and \<open>dbClear\<close> posts
  its events depends on it, and nothing stated below does.
\<close>

definition store_get :: "item list \<Rightarrow> string \<Rightarrow> item option" where
  "store_get st k = find (\<lambda>i. item_key i = k) st"

definition store_put :: "item list \<Rightarrow> item \<Rightarrow> item list" where
  "store_put st new =
     (if store_get st (item_key new) = None then st @ [new]
      else map (\<lambda>i. if item_key i = item_key new then new else i) st)"

definition store_delete :: "item list \<Rightarrow> string \<Rightarrow> item list" where
  "store_delete st k = filter (\<lambda>i. item_key i \<noteq> k) st"

text \<open>Every key names at most one record.\<close>

definition wf_store :: "item list \<Rightarrow> bool" where
  "wf_store st = distinct (map item_key st)"

section \<open>The Storage Core\<close>

datatype change_action = Set | Remove

type_synonym change_event = "string \<times> change_action"

text \<open>
  The state of the core's page: the records of the store, the events posted on the
  broadcast channel so far, the responses posted back to requesting windows so far,
  and what the Durable Store will do at the awaited calls to come: each awaited call
  takes the head of \<open>faults\<close>, and raises when it is \<open>Some e\<close>; the empty list is a
  store that works.
\<close>

record response =
  r_requestId :: nat
  r_value :: jsval
  r_error :: "(string \<times> string) option"

record core =
  items :: "item list"
  events :: "change_event list"
  outbox :: "(nat \<times> string \<times> response) list"
  faults :: "exn option list"

definition await :: "core \<Rightarrow> (core \<Rightarrow> (exn + 'a) \<times> core) \<Rightarrow> (exn + 'a) \<times> core" where
  "await st k =
     (case faults st of
        [] \<Rightarrow> k st
      | None # fs \<Rightarrow> k (st\<lparr>faults := fs\<rparr>)
      | Some e # fs \<Rightarrow> (Inl e, st\<lparr>faults := fs\<rparr>))"

fun hasPermission :: "jsval \<Rightarrow> string \<Rightarrow> bool" where
  "hasPermission (JArr aclList) origin =
     (JStr ''*'' \<in> set aclList \<or> JStr origin \<in> set aclList)"
| "hasPermission _ origin = False"

text \<open>
  \<open>item.expiresAt && Date.now() > item.expiresAt\<close>, with \<open>now\<close> what \<open>Date.now()\<close>
  returns: a whole number of milliseconds, of magnitude at most 8.64e15 and so a double.
\<close>

definition expired :: "item \<Rightarrow> int \<Rightarrow> bool" where
  "expired it now =
     (case expiresAt it of
        None \<Rightarrow> False
      | Some e \<Rightarrow> num_truthy e \<and> js_less e (Fin (of_int now)))"

definition dbGet :: "string \<Rightarrow> string \<Rightarrow> int \<Rightarrow> core \<Rightarrow> (exn + jsval) \<times> core" where
  "dbGet k origin now st0 =
     await st0 (\<lambda>st1. await st1 (\<lambda>st.
       case store_get (items st) k of
         None \<Rightarrow> (Inr JNull, st)
       | Some it \<Rightarrow>
           if expired it now then
             await st (\<lambda>st'.
               (Inr JNull,
                st'\<lparr>items := store_delete (items st') k,
                    events := events st' @ [(k, Remove)]\<rparr>))
           else if hasPermission (acl_read it) origin then (Inr (item_value it), st)
           else (Inl (PermissionDenied origin ''read'' k), st)))"

text \<open>
  The optional argument of \<open>setItem\<close>: \<open>None\<close> is \<open>undefined\<close> or \<open>null\<close>; \<open>opt_ttl\<close> is a
  number of seconds or absent.
\<close>

record options =
  opt_acl :: jsval
  opt_ttl :: "jsnum option"

text \<open>
  \<open>if (!newAcl.write.includes(origin)) newAcl.write.push(origin)\<close>, on whatever value
  \<open>newAcl.write\<close> holds: an array has both methods, a string has \<open>includes\<close> (a substring
  test) and no \<open>push\<close>, anything else has neither.
\<close>

fun force_add :: "jsval \<Rightarrow> string \<Rightarrow> exn + jsval" where
  "force_add (JArr ws) origin =
     (if JStr origin \<in> set ws then Inr (JArr ws) else Inr (JArr (ws @ [JStr origin])))"
| "force_add (JStr s) origin =
     (if sublist origin s then Inr (JStr s)
      else Inl (TypeError ''newAcl.write.push is not a function''))"
| "force_add _ origin = Inl (TypeError ''newAcl.write.includes is not a function'')"

text \<open>
  \<open>dbSet\<close>. \<open>newAcl.write\<close> is the array of the request when there is one, and then
  \<open>push\<close> changes it in place: what is put in the store is the request's value and
  read list as they read after the \<open>push\<close>.
\<close>

definition dbSet ::
  "string \<Rightarrow> jsval \<Rightarrow> options option \<Rightarrow> string \<Rightarrow> int \<Rightarrow> core \<Rightarrow> (exn + unit) \<times> core" where
  "dbSet k v opts origin now st0 =
     await st0 (\<lambda>st1. await st1 (\<lambda>st.
       let existingItem = store_get (items st) k;
           acl = (case opts of None \<Rightarrow> JUndefined | Some ob \<Rightarrow> opt_acl ob);
           ttl = (case opts of None \<Rightarrow> None | Some ob \<Rightarrow> opt_ttl ob);
           given = opt_chain acl ''write'';
           newWrite = nullish given (JArr [JStr origin]);
           checked =
             (case existingItem of
                Some ex \<Rightarrow>
                  if \<not> hasPermission (acl_write ex) origin
                  then Inl (PermissionDenied origin ''write'' k)
                  else Inr newWrite
              | None \<Rightarrow> force_add newWrite origin)
       in case checked of
            Inl e \<Rightarrow> (Inl e, st)
          | Inr w \<Rightarrow>
              let shared = (if given = JUndefined \<or> given = JNull then given else w);
                  itemToStore =
                    \<lparr>item_key = k, item_value = inline shared v,
                     acl_read =
                       nullish (inline shared (opt_chain acl ''read'')) (JArr [JStr ''*'']),
                     acl_write = w,
                     expiresAt =
                       (case ttl of
                          None \<Rightarrow> None
                        | Some t \<Rightarrow>
                            if num_truthy t
                            then Some (js_add (Fin (of_int now)) (js_mul t (Fin 1000)))
                            else None)\<rparr>
              in await st (\<lambda>st2. await st2 (\<lambda>st'.
                   (Inr (),
                    st'\<lparr>items := store_put (items st') itemToStore,
                        events := events st' @ [(k, Set)]\<rparr>)))))"

definition dbRemove :: "string \<Rightarrow> string \<Rightarrow> core \<Rightarrow> (exn + unit) \<times> core" where
  "dbRemove k origin st0 =
     await st0 (\<lambda>st1. await st1 (\<lambda>st.
       case store_get (items st) k of
         None \<Rightarrow> (Inr (), st)
       | Some ex \<Rightarrow>
           if \<not> hasPermission (acl_write ex) origin
           then (Inl (PermissionDenied origin ''write'' k), st)
           else await st (\<lambda>st2. await st2 (\<lambda>st'.
                  (Inr (),
                   st'\<lparr>items := store_delete (items st') k,
                       events := events st' @ [(k, Remove)]\<rparr>)))))"

text \<open>
  The cursor loop of \<open>dbClear\<close>. Every advance of the cursor is awaited; a deletion is
  made in the transaction (\<open>tx\<close>, the records as the transaction sees them) and its
  event is posted at once, before the transaction is done.
\<close>

fun clear_loop :: "item list \<Rightarrow> string \<Rightarrow> item list \<Rightarrow> core \<Rightarrow> (exn + item list) \<times> core" where
  "clear_loop [] origin tx st = await st (\<lambda>st'. (Inr tx, st'))"
| "clear_loop (c # cs) origin tx st =
     await st (\<lambda>st'.
       if hasPermission (acl_write c) origin
       then clear_loop cs origin (store_delete tx (item_key c))
              (st'\<lparr>events := events st' @ [(item_key c, Remove)]\<rparr>)
       else clear_loop cs origin tx st')"

definition dbClear :: "string \<Rightarrow> core \<Rightarrow> (exn + unit) \<times> core" where
  "dbClear origin st0 =
     await st0 (\<lambda>st.
       case clear_loop (items st) origin (items st) st of
         (Inl e, st1) \<Rightarrow> (Inl e, st1)
       | (Inr tx, st1) \<Rightarrow> await st1 (\<lambda>st'. (Inr (), st'\<lparr>items := tx\<rparr>)))"

definition dbKeys :: "string \<Rightarrow> core \<Rightarrow> (exn + string list) \<times> core" where
  "dbKeys origin st0 =
     await st0 (\<lambda>st1. await st1 (\<lambda>st.
       (Inr (map item_key (filter (\<lambda>it. hasPermission (acl_read it) origin) (items st))),
        st)))"


section \<open>The message listener of the Storage Core\<close>

text \<open>
  A request as the listener destructures it from \<open>event.data\<close>. The key is a string;
  a field the action does not use is not read.
\<close>

record request =
  action :: string
  req_key :: string
  req_value :: jsval
  req_options :: "options option"
  requestId :: nat

text \<open>
  A message event: the sender's origin as the transport attached it, and the window
  that sent it (\<open>None\<close> for \<open>null\<close>).
\<close>

record event =
  ev_origin :: string
  ev_source :: "nat option"
  ev_data :: request

text \<open>The \<open>switch\<close> of the listener; \<open>None\<close> is the \<open>default: return\<close>.\<close>

definition run_action :: "request \<Rightarrow> string \<Rightarrow> int \<Rightarrow> core \<Rightarrow> ((exn + jsval) \<times> core) option" where
  "run_action d origin now st =
     (if action d = ''setItem'' then
        (case dbSet (req_key d) (req_value d) (req_options d) origin now st of
           (r, st') \<Rightarrow> Some (map_sum id (\<lambda>u. JUndefined) r, st'))
      else if action d = ''getItem'' then Some (dbGet (req_key d) origin now st)
      else if action d = ''removeItem'' then
        (case dbRemove (req_key d) origin st of
           (r, st') \<Rightarrow> Some (map_sum id (\<lambda>u. JUndefined) r, st'))
      else if action d = ''clear'' then
        (case dbClear origin st of
           (r, st') \<Rightarrow> Some (map_sum id (\<lambda>u. JUndefined) r, st'))
      else if action d = ''keys'' then
        (case dbKeys origin st of
           (r, st') \<Rightarrow> Some (map_sum id (\<lambda>ks. JArr (map JStr ks)) r, st'))
      else None)"

text \<open>
  \<open>event.source.postMessage(response, event.origin)\<close>. \<open>event.origin\<close> is the
  serialization of the sender's origin: \<open>scheme://host\<close>, with a port if it is not the
  default one, which is a URL, or \<open>null\<close> for an opaque origin, which is not, and
  which \<open>postMessage\<close> refuses.
\<close>

definition post_response :: "nat \<Rightarrow> string \<Rightarrow> response \<Rightarrow> core \<Rightarrow> (exn + unit) \<times> core" where
  "post_response src target r st =
     (if target = ''null''
      then (Inl (SyntaxError ''Invalid target origin in a call to postMessage''), st)
      else (Inr (), st\<lparr>outbox := outbox st @ [(src, target, r)]\<rparr>))"

text \<open>
  The listener: the \<open>try\<close> runs the operation and posts the value, the \<open>catch\<close> posts
  the name and message of whatever was thrown in the \<open>try\<close>; both to \<open>event.source\<close>,
  addressed to \<open>event.origin\<close>, under the \<open>requestId\<close> of the request. What the
  \<open>catch\<close> itself throws is caught by nobody: it is the first component of the result.
\<close>

definition on_message :: "event \<Rightarrow> int \<Rightarrow> core \<Rightarrow> exn option \<times> core" where
  "on_message ev now st =
     (case ev_source ev of
        None \<Rightarrow> (None, st)
      | Some src \<Rightarrow>
          if ev_origin ev = [] then (None, st)
          else
            (case run_action (ev_data ev) (ev_origin ev) now st of
               None \<Rightarrow> (None, st)
             | Some (r, st1) \<Rightarrow>
                 (let tried =
                        (case r of
                           Inl e \<Rightarrow> (Inl e, st1)
                         | Inr v \<Rightarrow>
                             post_response src (ev_origin ev)
                               \<lparr>r_requestId = requestId (ev_data ev), r_value = v,
                                r_error = None\<rparr> st1)
                  in (case tried of
                        (Inr u, st2) \<Rightarrow> (None, st2)
                      | (Inl e, st2) \<Rightarrow>
                          (case post_response src (ev_origin ev)
                                  \<lparr>r_requestId = requestId (ev_data ev),
                                   r_value = JUndefined,
                                   r_error = Some (exn_name e, exn_message e)\<rparr> st2 of
                             (Inr u, st3) \<Rightarrow> (None, st3)
                           | (Inl e', st3) \<Rightarrow> (Some e', st3))))))"


section \<open>The Client Proxy\<close>

datatype core_state = Uninitialized | Initializing | Ready | Failed

text \<open>A JavaScript \<open>Error\<close> as the proxy makes and hands out: its name and message.\<close>

type_synonym js_error = "string \<times> string"

text \<open>
  The message of a request. \<open>clear\<close> and \<open>keys\<close> carry no key; only \<open>setItem\<close> carries
  a value and options (\<open>JUndefined\<close> otherwise).
\<close>

record message =
  m_action :: string
  m_key :: "string option"
  m_value :: jsval
  m_options :: jsval
  m_requestId :: nat

text \<open>
  What a call returns: a promise already resolved, already rejected, or pending on the
  response to the request with the given id.
\<close>

datatype promise = Resolved jsval | Rejected js_error | Pending nat

text \<open>
  What the caller chained on the promise of a request: \<open>getItem\<close> chains
  \<open>value => { cache.set(key, value); return value }\<close>, the other calls nothing.
\<close>

datatype chained = NoThen | ThenCache string

text \<open>
  The module state of \<open>lib.mjs\<close>, and what the module did to its page: the messages
  given to \<open>coreWindow.postMessage\<close> (with the window and target origin of the moment),
  the pending promises settled so far, the iframes appended to the document (by
  \<open>src\<close>), the iframe set-ups waiting for \<open>DOMContentLoaded\<close>, and the number of
  \<open>message\<close> listeners registered on the window. \<open>pendingRequests\<close> is a \<open>Map\<close>, kept
  in insertion order.
\<close>

record client =
  coreWindow :: "nat option"
  coreOrigin :: "string option"
  coreState :: core_state
  defaultOptions :: "(string \<times> jsval) list"
  requestQueue :: "message list"
  pendingRequests :: "(nat \<times> chained) list"
  requestIdCounter :: nat
  cache :: "string \<rightharpoonup> jsval"
  channel :: bool
  posted :: "(nat option \<times> string option \<times> message) list"
  settled :: "(nat \<times> (js_error + jsval)) list"
  iframes :: "string list"
  deferred :: "string list"
  listeners :: nat

text \<open>
  The page the module runs in: whether \<open>window\<close> and \<open>document\<close> exist, whether the
  document is still loading, and the platform's \<open>new URL(u).origin\<close> (\<open>None\<close> when the
  constructor throws). The default URL is a constant of the module, and its origin is
  known.
\<close>

record env =
  has_dom :: bool
  loading :: bool
  url_origin :: "string \<Rightarrow> string option"

definition defaultCoreUrl :: string where
  "defaultCoreUrl = ''https://globallocalstorage.github.io/globallocalstorage''"

definition origin_of :: "env \<Rightarrow> string \<Rightarrow> string option" where
  "origin_of e u =
     (if u = defaultCoreUrl then Some ''https://globallocalstorage.github.io''
      else url_origin e u)"

text \<open>The argument of \<open>init\<close>; \<open>None\<close> is an absent property.\<close>

record config =
  cfg_coreUrl :: "string option"
  cfg_defaultOptions :: "(string \<times> jsval) list option"

text \<open>
  \<open>JSON.parse(JSON.stringify(v))\<close> on plain data: a property whose value is
  \<open>undefined\<close> is dropped, an \<open>undefined\<close> array element becomes \<open>null\<close>.
\<close>

fun json_clone :: "jsval \<Rightarrow> jsval" where
  "json_clone (JArr xs) = JArr (map (\<lambda>x. if x = JUndefined then JNull else json_clone x) xs)"
| "json_clone (JObj fs) =
     JObj (map (\<lambda>p. (fst p, json_clone (snd p))) (filter (\<lambda>p. snd p \<noteq> JUndefined) fs))"
| "json_clone v = v"

definition json_clone_fields :: "(string \<times> jsval) list \<Rightarrow> (string \<times> jsval) list" where
  "json_clone_fields fs = (case json_clone (JObj fs) of JObj fs' \<Rightarrow> fs' | _ \<Rightarrow> [])"

text \<open>\<open>{...d, ...ob}\<close>: the properties of \<open>d\<close>, then those of \<open>ob\<close> defined over them.\<close>

definition spread :: "(string \<times> jsval) list \<Rightarrow> (string \<times> jsval) list \<Rightarrow> (string \<times> jsval) list" where
  "spread d ob = foldl (\<lambda>acc p. AList.update (fst p) (snd p) acc) d ob"

text \<open>
  \<open>init\<close>. The \<open>new URL(coreUrl)\<close> may throw, after \<open>coreState\<close> was already set to
  \<open>initializing\<close>. The iframe is appended at once, or on \<open>DOMContentLoaded\<close> when the
  document is still loading.
\<close>

definition init :: "env \<Rightarrow> config \<Rightarrow> client \<Rightarrow> (js_error + unit) \<times> client" where
  "init e cfg c =
     (if \<not> has_dom e then (Inr (), c\<lparr>coreState := Failed\<rparr>)
      else if coreState c \<noteq> Uninitialized \<and> coreState c \<noteq> Failed then (Inr (), c)
      else
        let c1 = c\<lparr>coreState := Initializing\<rparr>;
            coreUrl = (case cfg_coreUrl cfg of
                         None \<Rightarrow> defaultCoreUrl
                       | Some u \<Rightarrow> if u = [] then defaultCoreUrl else u)
        in case origin_of e coreUrl of
             None \<Rightarrow> (Inl (''TypeError'', ''Invalid URL''), c1)
           | Some og \<Rightarrow>
               let c2 = c1\<lparr>coreOrigin := Some og\<rparr>;
                   c3 = (case cfg_defaultOptions cfg of
                           None \<Rightarrow> c2
                         | Some d \<Rightarrow> c2\<lparr>defaultOptions := json_clone_fields d\<rparr>);
                   c4 = c3\<lparr>channel := True\<rparr>;
                   c5 = (if loading e then c4\<lparr>deferred := deferred c4 @ [coreUrl]\<rparr>
                         else c4\<lparr>iframes := iframes c4 @ [coreUrl]\<rparr>)
               in (Inr (), c5\<lparr>listeners := Suc (listeners c5)\<rparr>))"

text \<open>The events of the page that the closures set up by \<open>init\<close> handle.\<close>

definition on_dom_content_loaded :: "client \<Rightarrow> client" where
  "on_dom_content_loaded c = c\<lparr>iframes := iframes c @ deferred c, deferred := []\<rparr>"

text \<open>
  \<open>coreWindow.postMessage(message, coreOrigin)\<close>. It throws a \<open>TypeError\<close> while
  \<open>coreWindow\<close> is \<open>null\<close>, and a \<open>SyntaxError\<close> when \<open>coreOrigin\<close> is \<open>null\<close>, the
  origin of a core URL with an opaque origin (\<open>data:\<close>, \<open>file:\<close>), which is no URL. A
  \<open>coreOrigin\<close> still unset makes the call one without target origin.
\<close>

definition post_to_core :: "message \<Rightarrow> client \<Rightarrow> (js_error + unit) \<times> client" where
  "post_to_core msg c =
     (case coreWindow c of
        None \<Rightarrow> (Inl (''TypeError'', ''coreWindow is null''), c)
      | Some w \<Rightarrow>
          if coreOrigin c = Some ''null''
          then (Inl (''SyntaxError'', ''Invalid target origin in a call to postMessage''), c)
          else (Inr (), c\<lparr>posted := posted c @ [(Some w, coreOrigin c, msg)]\<rparr>))"

text \<open>
  \<open>processRequestQueue\<close>: each request is taken off the queue, then posted. A
  \<open>postMessage\<close> that throws ends the loop, with the rest still queued.
\<close>

fun drain :: "message list \<Rightarrow> client \<Rightarrow> (js_error + unit) \<times> client" where
  "drain [] c = (Inr (), c\<lparr>requestQueue := []\<rparr>)"
| "drain (m # ms) c =
     (case post_to_core m (c\<lparr>requestQueue := ms\<rparr>) of
        (Inl err, c') \<Rightarrow> (Inl err, c')
      | (Inr u, c') \<Rightarrow> drain ms c')"

definition processRequestQueue :: "client \<Rightarrow> (js_error + unit) \<times> client" where
  "processRequestQueue c = drain (requestQueue c) c"

text \<open>
  \<open>iframe.onload\<close> of the iframe whose content window is \<open>w\<close>. What
  \<open>processRequestQueue\<close> throws is an uncaught error of the page; the state is as the
  throw left it.
\<close>

definition on_iframe_load :: "nat \<Rightarrow> client \<Rightarrow> client" where
  "on_iframe_load w c =
     snd (processRequestQueue (c\<lparr>coreWindow := Some w, coreState := Ready\<rparr>))"

text \<open>Settling a promise that is settled already changes nothing.\<close>

definition settle :: "nat \<Rightarrow> js_error + jsval \<Rightarrow> (nat \<times> (js_error + jsval)) list \<Rightarrow> (nat \<times> (js_error + jsval)) list" where
  "settle rid outcome lg = (if map_of lg rid = None then lg @ [(rid, outcome)] else lg)"

text \<open>
  \<open>iframe.onerror\<close> of the iframe with \<open>src = coreUrl\<close>: every queued request that is
  pending is rejected, then every pending request; queue and map are emptied.
\<close>

definition on_iframe_error :: "string \<Rightarrow> client \<Rightarrow> client" where
  "on_iframe_error coreUrl c =
     (let error = (''Error'', ''Failed to load the storage core iframe. URL: '' @ coreUrl @ ''.'');
          queued = filter (\<lambda>rid. map_of (pendingRequests c) rid \<noteq> None)
                     (map m_requestId (requestQueue c));
          lg1 = foldl (\<lambda>lg rid. settle rid (Inl error) lg) (settled c) queued;
          lg2 = foldl (\<lambda>lg rid. settle rid (Inl error) lg) lg1
                   (map fst (pendingRequests c))
      in c\<lparr>coreState := Failed, settled := lg2, requestQueue := [], pendingRequests := []\<rparr>)"

text \<open>The handler of the broadcast channel.\<close>

definition on_broadcast :: "string \<Rightarrow> string \<Rightarrow> client \<Rightarrow> client" where
  "on_broadcast k act c =
     (if act = ''set'' \<or> act = ''remove'' then c\<lparr>cache := (cache c)(k := None)\<rparr> else c)"

text \<open>
  One \<open>message\<close> listener of the window, on an event with the given origin and
  source, whose data has the given \<open>action\<close> and the fields of a response. \<open>resolve\<close>
  and \<open>reject\<close> do nothing to a promise that is settled, and then what \<open>getItem\<close>
  chained on it does not run.
\<close>

definition handle_message :: "string \<Rightarrow> nat option \<Rightarrow> string \<Rightarrow> response \<Rightarrow> client \<Rightarrow> client" where
  "handle_message origin source act r c =
     (if coreState c = Ready \<and> Some origin = coreOrigin c \<and> source = coreWindow c then
        (if act = ''response'' then
           (case map_of (pendingRequests c) (r_requestId r) of
              None \<Rightarrow> c
            | Some ch \<Rightarrow>
                (case r_error r of
                   Some err \<Rightarrow>
                     c\<lparr>settled := settle (r_requestId r) (Inl err) (settled c),
                       pendingRequests := AList.delete (r_requestId r) (pendingRequests c)\<rparr>
                 | None \<Rightarrow>
                     c\<lparr>settled := settle (r_requestId r) (Inr (r_value r)) (settled c),
                       cache := (case ch of
                                   NoThen \<Rightarrow> cache c
                                 | ThenCache k \<Rightarrow>
                                     if map_of (settled c) (r_requestId r) = None
                                     then (cache c)(k \<mapsto> r_value r)
                                     else cache c),
                       pendingRequests := AList.delete (r_requestId r) (pendingRequests c)\<rparr>))
         else c)
      else c)"

text \<open>Every \<open>init\<close> that got that far registered one more listener; each one runs.\<close>

definition on_window_message :: "string \<Rightarrow> nat option \<Rightarrow> string \<Rightarrow> response \<Rightarrow> client \<Rightarrow> client" where
  "on_window_message origin source act r c =
     ((handle_message origin source act r) ^^ (listeners c)) c"

text \<open>
  \<open>sendRequest\<close>, with what is chained on the promise it returns. The \<open>init()\<close> of an
  uninitialized module has no argument, so it takes the default URL. The executor of
  the promise registers the request before it posts it: when \<open>postMessage\<close> throws, the
  promise is rejected with what was thrown and the request stays registered.
\<close>

definition sendRequest :: "env \<Rightarrow> message \<Rightarrow> chained \<Rightarrow> client \<Rightarrow> promise \<times> client" where
  "sendRequest e msg ch c =
     (let c1 = (if coreState c = Uninitialized
                then snd (init e \<lparr>cfg_coreUrl = None, cfg_defaultOptions = None\<rparr> c)
                else c)
      in if coreState c1 = Failed
         then (Rejected (''Error'', ''GlobalLocalStorage core is in a failed state.''), c1)
         else
           let c2 = c1\<lparr>pendingRequests :=
                         AList.update (m_requestId msg) ch (pendingRequests c1)\<rparr>
           in if coreState c2 = Ready
              then (case post_to_core msg c2 of
                      (Inr u, c3) \<Rightarrow> (Pending (m_requestId msg), c3)
                    | (Inl err, c3) \<Rightarrow>
                        (Rejected err,
                         c3\<lparr>settled := settle (m_requestId msg) (Inl err) (settled c3)\<rparr>))
              else (Pending (m_requestId msg),
                    c2\<lparr>requestQueue := requestQueue c2 @ [msg]\<rparr>))"

definition setItem :: "env \<Rightarrow> string \<Rightarrow> jsval \<Rightarrow> (string \<times> jsval) list \<Rightarrow> client \<Rightarrow> promise \<times> client" where
  "setItem e k v ob c =
     (let requestId = requestIdCounter c;
          c1 = c\<lparr>requestIdCounter := Suc requestId, cache := (cache c)(k := None)\<rparr>;
          finalOptions = spread (defaultOptions c1) ob
      in sendRequest e
           \<lparr>m_action = ''setItem'', m_key = Some k, m_value = v,
            m_options = JObj finalOptions, m_requestId = requestId\<rparr> NoThen c1)"

definition getItem :: "env \<Rightarrow> string \<Rightarrow> client \<Rightarrow> promise \<times> client" where
  "getItem e k c =
     (case cache c k of
        Some v \<Rightarrow> (Resolved v, c)
      | None \<Rightarrow>
          let requestId = requestIdCounter c;
              c1 = c\<lparr>requestIdCounter := Suc requestId\<rparr>
          in sendRequest e
               \<lparr>m_action = ''getItem'', m_key = Some k, m_value = JUndefined,
                m_options = JUndefined, m_requestId = requestId\<rparr> (ThenCache k) c1)"

definition removeItem :: "env \<Rightarrow> string \<Rightarrow> client \<Rightarrow> promise \<times> client" where
  "removeItem e k c =
     (let requestId = requestIdCounter c;
          c1 = c\<lparr>requestIdCounter := Suc requestId, cache := (cache c)(k := None)\<rparr>
      in sendRequest e
           \<lparr>m_action = ''removeItem'', m_key = Some k, m_value = JUndefined,
            m_options = JUndefined, m_requestId = requestId\<rparr> NoThen c1)"

definition clear :: "env \<Rightarrow> client \<Rightarrow> promise \<times> client" where
  "clear e c =
     (let requestId = requestIdCounter c;
          c1 = c\<lparr>requestIdCounter := Suc requestId, cache := Map.empty\<rparr>
      in sendRequest e
           \<lparr>m_action = ''clear'', m_key = None, m_value = JUndefined,
            m_options = JUndefined, m_requestId = requestId\<rparr> NoThen c1)"

definition keys :: "env \<Rightarrow> client \<Rightarrow> promise \<times> client" where
  "keys e c =
     (let requestId = requestIdCounter c;
          c1 = c\<lparr>requestIdCounter := Suc requestId\<rparr>
      in sendRequest e
           \<lparr>m_action = ''keys'', m_key = None, m_value = JUndefined,
            m_options = JUndefined, m_requestId = requestId\<rparr> NoThen c1)"

text \<open>The public operations, and the state after a sequence of them.\<close>

datatype op =
    Init config
  | SetItem string jsval "(string \<times> jsval) list"
  | GetItem string
  | RemoveItem string
  | Clear
  | Keys

fun apply_op :: "env \<Rightarrow> op \<Rightarrow> client \<Rightarrow> client" where
  "apply_op e (Init cfg) c = snd (init e cfg c)"
| "apply_op e (SetItem k v ob) c = snd (setItem e k v ob c)"
| "apply_op e (GetItem k) c = snd (getItem e k c)"
| "apply_op e (RemoveItem k) c = snd (removeItem e k c)"
| "apply_op e Clear c = snd (clear e c)"
| "apply_op e Keys c = snd (keys e c)"

fun run_ops :: "env \<Rightarrow> op list \<Rightarrow> client \<Rightarrow> client" where
  "run_ops e [] c = c"
| "run_ops e (x # xs) c = run_ops e xs (apply_op e x c)"

fun is_init :: "op \<Rightarrow> bool" where
  "is_init (Init cfg) = True"
| "is_init _ = False"

text \<open>The module as loaded, a page with a loaded document, and a page-less runtime.\<close>

definition client0 :: client where
  "client0 =
     \<lparr>coreWindow = None, coreOrigin = None, coreState = Uninitialized, defaultOptions = [],
      requestQueue = [], pendingRequests = [], requestIdCounter = 0, cache = Map.empty,
      channel = False, posted = [], settled = [], iframes = [], deferred = [],
      listeners = 0\<rparr>"

definition browser :: env where
  "browser = \<lparr>has_dom = True, loading = False, url_origin = (\<lambda>u. None)\<rparr>"

definition no_dom :: env where
  "no_dom = \<lparr>has_dom = False, loading = False, url_origin = (\<lambda>u. None)\<rparr>"

text \<open>
  The proxy as a transition system: what can happen to the module in its page is a
  call of a public operation or one of the events it listens to. An iframe event needs
  its iframe.
\<close>

datatype page_event =
    Call op
  | DomContentLoaded
  | IframeLoad nat
  | IframeError string
  | Broadcast string string
  | WindowMessage string "nat option" string response

fun enabled :: "page_event \<Rightarrow> client \<Rightarrow> bool" where
  "enabled (IframeLoad w) c = (w < length (iframes c))"
| "enabled (IframeError u) c = (u \<in> set (iframes c))"
| "enabled _ c = True"

fun step :: "env \<Rightarrow> page_event \<Rightarrow> client \<Rightarrow> client" where
  "step e (Call x) c = apply_op e x c"
| "step e DomContentLoaded c = on_dom_content_loaded c"
| "step e (IframeLoad w) c = on_iframe_load w c"
| "step e (IframeError u) c = on_iframe_error u c"
| "step e (Broadcast k act) c = on_broadcast k act c"
| "step e (WindowMessage og src act r) c = on_window_message og src act r c"

text \<open>
  What holds of every state the module can be in, in the page \<open>e\<close>: once an iframe was
  set up the core's origin is known and a listener is registered; a ready proxy has its
  core window; every correlation id in use is below the counter; a pending call is not
  settled, unless the core's origin is \<open>null\<close> and posting it failed; without
  \<open>window\<close> or \<open>document\<close> there is no iframe and the proxy is uninitialized or failed;
  and an uninitialized or failed proxy has no pending call.
\<close>

definition client_inv :: "env \<Rightarrow> client \<Rightarrow> bool" where
  "client_inv e c \<longleftrightarrow>
     (iframes c = [] \<and> deferred c = [] \<or> coreOrigin c \<noteq> None \<and> 0 < listeners c)
   \<and> (coreState c \<noteq> Ready \<or> coreWindow c \<noteq> None \<and> iframes c \<noteq> [])
   \<and> list_all (\<lambda>p. fst p < requestIdCounter c) (pendingRequests c)
   \<and> list_all (\<lambda>p. fst p < requestIdCounter c) (settled c)
   \<and> (coreOrigin c = Some ''null''
        \<or> list_all (\<lambda>p. map_of (settled c) (fst p) = None) (pendingRequests c))
   \<and> (has_dom e
        \<or> iframes c = [] \<and> deferred c = []
          \<and> (coreState c = Uninitialized \<or> coreState c = Failed))
   \<and> (coreState c = Initializing \<or> coreState c = Ready \<or> pendingRequests c = [])"

inductive reachable :: "env \<Rightarrow> client \<Rightarrow> bool" for e :: env where
  reach_start: "reachable e client0"
| reach_step: "reachable e c \<Longrightarrow> enabled ev c \<Longrightarrow> reachable e (step e ev c)"

section \<open>Auxiliary definitions for the proofs and the examples\<close>

definition advance :: "core \<Rightarrow> core" where
  "advance st = st\<lparr>faults := tl (faults st)\<rparr>"

definition next_fault :: "core \<Rightarrow> exn option" where
  "next_fault st = (case faults st of [] \<Rightarrow> None | f # fs \<Rightarrow> f)"

text \<open>A core with the given records, nothing posted yet, on a store that works.\<close>

definition core0 :: "item list \<Rightarrow> core" where
  "core0 its = \<lparr>items = its, events = [], outbox = [], faults = []\<rparr>"

text \<open>What \<open>https://a\<close> creates under \<open>k\<close> with no options.\<close>

definition ex_item :: item where
  "ex_item = \<lparr>item_key = ''k'', item_value = JNum 1, acl_read = JArr [JStr ''*''],
              acl_write = JArr [JStr ''https://a''], expiresAt = None\<rparr>"

text \<open>A record only \<open>https://b\<close> may write.\<close>

definition other_item :: item where
  "other_item = \<lparr>item_key = ''j'', item_value = JStr ''v'', acl_read = JArr [JStr ''https://b''],
                 acl_write = JArr [JStr ''https://b''], expiresAt = Some (Fin 5000)\<rparr>"

text \<open>A record of \<open>https://a\<close> that expired at 1001 ms.\<close>

definition session_item :: item where
  "session_item = \<lparr>item_key = ''session'', item_value = JStr ''v'',
                   acl_read = JArr [JStr ''*''], acl_write = JArr [JStr ''https://a''],
                   expiresAt = Some (Fin 1001)\<rparr>"

text \<open>The message \<open>getItem\<close> builds for key \<open>k\<close> under correlation id \<open>rid\<close>.\<close>

definition get_message :: "string \<Rightarrow> nat \<Rightarrow> message" where
  "get_message k rid =
     \<lparr>m_action = ''getItem'', m_key = Some k, m_value = JUndefined,
      m_options = JUndefined, m_requestId = rid\<rparr>"

text \<open>
  Example states of a proxy, each reached from the module as loaded: after \<open>init()\<close> and
  the iframe's \<open>onerror\<close>; after \<open>init()\<close> and the iframe's \<open>onload\<close>; then with a
  \<open>setItem\<close> and a \<open>getItem\<close> in flight; then with one \<open>getItem\<close> in flight; then after
  the core answered that \<open>getItem\<close> with \<open>null\<close>.
\<close>

definition cfg0 :: config where
  "cfg0 = \<lparr>cfg_coreUrl = None, cfg_defaultOptions = None\<rparr>"

definition core_origin :: string where
  "core_origin = ''https://globallocalstorage.github.io''"

definition failed_client :: client where
  "failed_client = on_iframe_error defaultCoreUrl (snd (init browser cfg0 client0))"

definition ready_client :: client where
  "ready_client = on_iframe_load 0 (snd (init browser cfg0 client0))"

definition busy_client :: client where
  "busy_client =
     snd (getItem browser ''x'' (snd (setItem browser ''k'' (JNum 1) [] ready_client)))"

definition waiting_client :: client where
  "waiting_client = snd (getItem browser ''x'' ready_client)"

definition null_response :: response where
  "null_response = \<lparr>r_requestId = 0, r_value = JNull, r_error = None\<rparr>"

definition cached_client :: client where
  "cached_client =
     on_window_message core_origin (Some 0) ''response'' null_response waiting_client"

text \<open>
  A \<open>setItem\<close> request from window 7 of \<open>https://a\<close>, and a core whose store raises
  \<open>QuotaExceededError\<close> at the third awaited call, the \<open>put\<close>.
\<close>

definition quota_event :: event where
  "quota_event =
     \<lparr>ev_origin = ''https://a'', ev_source = Some 7,
      ev_data = \<lparr>action = ''setItem'', req_key = ''k'', req_value = JNum 1,
                 req_options = None, requestId = 0\<rparr>\<rparr>"

definition quota_core :: core where
  "quota_core =
     (core0 [])\<lparr>faults := [None, None, Some (StoreFault ''QuotaExceededError'' ''full'')]\<rparr>"

definition quota_response :: response where
  "quota_response =
     \<lparr>r_requestId = 0, r_value = JUndefined,
      r_error = Some (''QuotaExceededError'', ''full'')\<rparr>"

section \<open>Facts about numbers and shared arrays\<close>

lemma round_even_int [simp]: "round_even (of_int m) = m"
  by (simp add: round_even_def)

lemma lg_up_lower: "1 \<le> r \<Longrightarrow> 2 ^ lg_up r \<le> r"
proof (induction r rule: lg_up.induct)
  case (1 r)
  show ?case
  proof (cases "r < 2")
    case True
    with "1.prems" show ?thesis by (simp add: lg_up.simps)
  next
    case False
    then have "1 \<le> r / 2" by simp
    with "1.IH" False have "2 ^ lg_up (r / 2) \<le> r / 2" by simp
    with False show ?thesis by (subst lg_up.simps) simp
  qed
qed

lemma lg_up_upper: "1 \<le> r \<Longrightarrow> r < 2 ^ Suc (lg_up r)"
proof (induction r rule: lg_up.induct)
  case (1 r)
  show ?case
  proof (cases "r < 2")
    case True
    with "1.prems" show ?thesis by (simp add: lg_up.simps)
  next
    case False
    then have "1 \<le> r / 2" by simp
    with "1.IH" False have "r / 2 < 2 ^ Suc (lg_up (r / 2))" by simp
    with False show ?thesis by (subst lg_up.simps) simp
  qed
qed

text \<open>An integer below \<open>2^53\<close> in magnitude is a double: rounding leaves it as it is.\<close>

lemma to_double_int:
  assumes "\<bar>n\<bar> < 2 ^ 53"
  shows "to_double (of_int n) = Fin (of_int n)"
proof (cases "n = 0")
  case True
  then show ?thesis by (simp add: to_double_def)
next
  case False
  define e where "e = max (ilog2 \<bar>of_int n\<bar>) (- 1022)"
  have r1: "(1::rat) \<le> \<bar>of_int n\<bar>" using False by (simp flip: of_int_abs)
  have lt: "\<bar>of_int n :: rat\<bar> < 2 ^ 53"
    using assms by (metis of_int_abs of_int_less_numeral_power_cancel_iff)
  have "(2::rat) ^ lg_up \<bar>of_int n\<bar> < 2 ^ 53"
    using lg_up_lower[OF r1] lt by simp
  then have "lg_up \<bar>of_int n :: rat\<bar> < 53"
    by (rule power_less_imp_less_exp[rotated]) simp
  then have e: "e \<le> 52" using r1 by (simp add: e_def ilog2_def)
  define k where "k = nat (52 - e)"
  have u: "power_int (2::rat) (e - 52) = 1 / 2 ^ k"
    using e by (simp add: k_def power_int_def field_simps)
  have q: "(of_int n :: rat) / power_int 2 (e - 52) = of_int (n * 2 ^ k)"
    by (simp add: u)
  have y: "of_int (round_even ((of_int n :: rat) / power_int 2 (e - 52))) * power_int 2 (e - 52)
           = (of_int n :: rat)"
    unfolding q round_even_int by (simp add: u)
  have "\<bar>of_int n :: rat\<bar> < 2 ^ 1024" using lt by (rule less_trans) simp
  then have b: "\<not> power_int (2::rat) 1024 \<le> \<bar>of_int n\<bar>" by simp
  show ?thesis
    using False b unfolding to_double_def Let_def e_def[symmetric] y by simp
qed

lemma to_double_numeral:
  "numeral n < (2::int) ^ 53 \<Longrightarrow> to_double (numeral n) = Fin (numeral n)"
  "numeral n < (2::int) ^ 53 \<Longrightarrow> to_double (- numeral n) = Fin (- numeral n)"
  using to_double_int[of "numeral n"] to_double_int[of "- numeral n"] by simp_all

lemma floor_rat_numeral:
  "\<lfloor>numeral a / numeral b :: rat\<rfloor> = numeral a div numeral b"
  using floor_divide_of_int_eq[of "numeral a" "numeral b", where ?'a = rat] by simp

text \<open>
  Rounding at work: at clock 1800000000000 a TTL of \<open>2^-20\<close> seconds gives an expiry
  \<open>1/1024\<close> ms later, not \<open>125/131072\<close> ms later.
\<close>

lemma ilog2_example: "ilog2 \<bar>1800000000000 + 125 / 131072\<bar> = 40"
  by (simp add: ilog2_def lg_up.simps)

lemma to_double_example:
  "js_add (Fin 1800000000000) (js_mul (Fin (1 / 2 ^ 20)) (Fin 1000)) =
     Fin (1800000000000 + 1 / 1024)"
proof -
  have i: "ilog2 \<bar>1000 / 2 ^ 20\<bar> = - 11"
    by (simp add: ilog2_def lg_up.simps Let_def)
  have m: "js_mul (Fin (1 / 2 ^ 20)) (Fin 1000) = Fin (125 / 131072)"
    using i by (simp add: to_double_def Let_def round_even_def floor_rat_numeral)
  have "to_double (1800000000000 + 125 / 131072) = Fin (1800000000000 + 1 / 1024)"
    unfolding to_double_def Let_def ilog2_example
    by (simp add: round_even_def Let_def floor_rat_numeral)
  with m show ?thesis by simp
qed

lemma inline_alias_free: "alias_free v \<Longrightarrow> inline w v = v"
proof (induction v rule: alias_free.induct)
  case (2 xs)
  then show ?case by (auto simp: list_all_iff intro: map_idI)
next
  case (3 fs)
  then show ?case by (auto simp: list_all_iff intro!: map_idI)
qed simp_all

section \<open>Facts about the store and the awaited calls\<close>

lemma await_nofault: "faults st = [] \<Longrightarrow> await st k = k st"
  by (simp add: await_def)

lemma advance_simps [simp]:
  "items (advance st) = items st" "events (advance st) = events st"
  "outbox (advance st) = outbox st" "faults (advance st) = tl (faults st)"
  by (simp_all add: advance_def)

lemma await_alt:
  "await st k =
     (case next_fault st of Some e \<Rightarrow> (Inl e, advance st) | None \<Rightarrow> k (advance st))"
  by (cases st; cases "faults st")
     (auto simp: await_def advance_def next_fault_def split: option.splits)

lemma await_InrD: "await st k = (Inr u, st') \<Longrightarrow> k (advance st) = (Inr u, st')"
  by (auto simp: await_alt split: option.splits)

lemma store_get_put_same: "store_get (store_put st new) (item_key new) = Some new"
proof (cases "store_get st (item_key new)")
  case None
  then show ?thesis
    by (simp add: store_put_def store_get_def find_None_iff) (induction st; simp)
next
  case (Some a)
  then have "\<exists>i \<in> set st. item_key i = item_key new"
    by (auto simp: store_get_def find_Some_iff)
  then have "find (\<lambda>i. item_key i = item_key new)
               (map (\<lambda>i. if item_key i = item_key new then new else i) st) = Some new"
    by (induction st) auto
  with Some show ?thesis by (simp add: store_put_def store_get_def)
qed

lemma store_get_delete_same: "store_get (store_delete st k) k = None"
  by (simp add: store_get_def store_delete_def find_None_iff)

lemma store_get_filter:
  assumes "distinct (map item_key xs)" and "i \<in> set xs"
  shows "store_get (filter P xs) (item_key i) = (if P i then Some i else None)"
  using assms unfolding store_get_def
proof (induction xs)
  case Nil
  then show ?case by simp
next
  case (Cons x xs)
  then show ?case by (auto simp: find_None_iff image_iff)
qed

lemma store_get_filter_absent: "store_get xs k = None \<Longrightarrow> store_get (filter P xs) k = None"
  by (auto simp: store_get_def find_None_iff)

text \<open>On a store that works, each operation is a plain function of the records.\<close>

lemma dbSet_nofault:
  assumes "faults st = []"
  shows "dbSet k v opts origin now st =
     (let acl = (case opts of None \<Rightarrow> JUndefined | Some ob \<Rightarrow> opt_acl ob);
          ttl = (case opts of None \<Rightarrow> None | Some ob \<Rightarrow> opt_ttl ob);
          given = opt_chain acl ''write'';
          newWrite = nullish given (JArr [JStr origin]);
          checked =
            (case store_get (items st) k of
               Some ex \<Rightarrow>
                 if \<not> hasPermission (acl_write ex) origin
                 then Inl (PermissionDenied origin ''write'' k)
                 else Inr newWrite
             | None \<Rightarrow> force_add newWrite origin)
      in case checked of
           Inl e \<Rightarrow> (Inl e, st)
         | Inr w \<Rightarrow>
             (let shared = (if given = JUndefined \<or> given = JNull then given else w)
              in (Inr (),
                  st\<lparr>items := store_put (items st)
                        \<lparr>item_key = k, item_value = inline shared v,
                         acl_read =
                           nullish (inline shared (opt_chain acl ''read'')) (JArr [JStr ''*'']),
                         acl_write = w,
                         expiresAt =
                           (case ttl of
                              None \<Rightarrow> None
                            | Some t \<Rightarrow>
                                if num_truthy t
                                then Some (js_add (Fin (of_int now)) (js_mul t (Fin 1000)))
                                else None)\<rparr>,
                     events := events st @ [(k, Set)]\<rparr>)))"
  using assms by (simp add: dbSet_def await_nofault Let_def split: sum.splits)

lemma dbGet_nofault:
  assumes "faults st = []"
  shows "dbGet k origin now st =
     (case store_get (items st) k of
        None \<Rightarrow> (Inr JNull, st)
      | Some it \<Rightarrow>
          if expired it now
          then (Inr JNull,
                st\<lparr>items := store_delete (items st) k, events := events st @ [(k, Remove)]\<rparr>)
          else if hasPermission (acl_read it) origin then (Inr (item_value it), st)
          else (Inl (PermissionDenied origin ''read'' k), st))"
  using assms by (simp add: dbGet_def await_nofault split: option.splits)

lemma dbKeys_nofault:
  "faults st = [] \<Longrightarrow>
   dbKeys t st =
     (Inr (map item_key (filter (\<lambda>it. hasPermission (acl_read it) t) (items st))), st)"
  by (simp add: dbKeys_def await_nofault)

lemma clear_loop_nofault:
  "faults st = [] \<Longrightarrow>
   clear_loop cs t tx st =
     (Inr (filter (\<lambda>i. item_key i \<notin> item_key ` {c \<in> set cs. hasPermission (acl_write c) t}) tx),
      st\<lparr>events := events st @
            map (\<lambda>c. (item_key c, Remove)) (filter (\<lambda>c. hasPermission (acl_write c) t) cs)\<rparr>)"
proof (induction cs arbitrary: tx st)
  case Nil
  then show ?case by (simp add: await_nofault)
next
  case (Cons c cs)
  have eq: "{x. (x = c \<or> x \<in> set cs) \<and> hasPermission (acl_write x) t} =
            (if hasPermission (acl_write c) t then {c} else {}) \<union>
            {x \<in> set cs. hasPermission (acl_write x) t}"
    by auto
  show ?case
    using Cons.prems
    by (auto simp: await_nofault Cons.IH store_delete_def eq intro!: filter_cong)
qed

lemma filter_writable_keys:
  assumes "distinct (map item_key xs)"
  shows "filter (\<lambda>i. item_key i \<notin> item_key ` {c \<in> set xs. P c}) xs = filter (\<lambda>i. \<not> P i) xs"
proof (rule filter_cong[OF refl])
  fix i assume i: "i \<in> set xs"
  have "item_key i \<in> item_key ` {c \<in> set xs. P c} \<longleftrightarrow> P i"
  proof
    assume "item_key i \<in> item_key ` {c \<in> set xs. P c}"
    then obtain c where c: "c \<in> set xs" "P c" "item_key c = item_key i" by auto
    with i assms have "c = i" by (meson distinct_map inj_onD)
    with c show "P i" by simp
  next
    assume "P i"
    with i show "item_key i \<in> item_key ` {c \<in> set xs. P c}" by auto
  qed
  then show "(item_key i \<notin> item_key ` {c \<in> set xs. P c}) = (\<not> P i)" by simp
qed

text \<open>
  \<open>clear\<close> on a store that works: the records the tenant may write are gone, one
  \<open>remove\<close> event each, in scan order.
\<close>

lemma dbClear_nofault:
  assumes "faults st = []" and "wf_store (items st)"
  shows "dbClear t st =
    (Inr (),
     st\<lparr>events := events st @
          map (\<lambda>c. (item_key c, Remove))
            (filter (\<lambda>c. hasPermission (acl_write c) t) (items st)),
        items := filter (\<lambda>i. \<not> hasPermission (acl_write i) t) (items st)\<rparr>)"
  using assms
  by (simp add: dbClear_def await_nofault clear_loop_nofault filter_writable_keys wf_store_def)

lemma count_list_map_key:
  assumes "distinct (map item_key xs)"
  shows "count_list (map (\<lambda>c. (item_key c, Remove)) (filter P xs)) (k, a) =
         (if a = Remove \<and> (\<exists>i \<in> set xs. item_key i = k \<and> P i) then 1 else 0)"
  using assms
proof (induction xs)
  case Nil
  then show ?case by simp
next
  case (Cons x xs)
  then show ?case by (auto simp: image_iff)
qed

text \<open>
  An item whose \<open>expiresAt\<close> is a non-zero number in the past is evicted by \<open>get\<close>,
  whoever asks: removed, one \<open>remove\<close> event, \<open>null\<close>.
\<close>

lemma dbGet_expired:
  assumes "faults st = []" and "store_get (items st) k = Some it"
    and "expiresAt it = Some (Fin e)" and "e \<noteq> 0" and "e < of_int now"
  shows "dbGet k origin now st =
           (Inr JNull,
            st\<lparr>items := store_delete (items st) k, events := events st @ [(k, Remove)]\<rparr>)"
  using assms by (simp add: dbGet_def await_nofault expired_def)

text \<open>
  The keys of the store stay unique under every operation, whatever the Durable Store
  does: \<open>wf_store\<close> holds of every store the listener can reach from the empty one.
\<close>

lemma wf_store_put: "wf_store st \<Longrightarrow> wf_store (store_put st new)"
proof -
  assume w: "wf_store st"
  show ?thesis
  proof (cases "store_get st (item_key new)")
    case None
    then have "item_key new \<notin> item_key ` set st"
      by (auto simp: store_get_def find_None_iff)
    with w None show ?thesis by (simp add: store_put_def wf_store_def)
  next
    case (Some a)
    have "map (item_key \<circ> (\<lambda>i. if item_key i = item_key new then new else i)) st =
          map item_key st"
      by (rule map_cong) auto
    then have "distinct (map (item_key \<circ> (\<lambda>i. if item_key i = item_key new then new else i)) st)"
      using w unfolding wf_store_def by (simp only:)
    then show ?thesis using Some by (simp add: store_put_def wf_store_def)
  qed
qed

lemma wf_store_filter: "wf_store st \<Longrightarrow> wf_store (filter P st)"
  by (simp add: wf_store_def distinct_map_filter)

lemma wf_store_delete: "wf_store st \<Longrightarrow> wf_store (store_delete st k)"
  by (simp add: store_delete_def wf_store_filter)

lemma await_wf:
  assumes "\<And>s. items s = items st \<Longrightarrow> wf_store (items (snd (k s)))"
    and "wf_store (items st)"
  shows "wf_store (items (snd (await st k)))"
  using assms by (auto simp: await_alt split: option.splits)

lemma dbSet_wf: "wf_store (items st) \<Longrightarrow> wf_store (items (snd (dbSet k v opts t now st)))"
  unfolding dbSet_def Let_def
  by (intro await_wf) (auto simp: wf_store_put split: sum.splits option.splits intro!: await_wf)

lemma dbGet_wf: "wf_store (items st) \<Longrightarrow> wf_store (items (snd (dbGet k t now st)))"
  unfolding dbGet_def
  by (intro await_wf) (auto simp: wf_store_delete split: option.splits intro!: await_wf)

lemma dbRemove_wf: "wf_store (items st) \<Longrightarrow> wf_store (items (snd (dbRemove k t st)))"
  unfolding dbRemove_def
  by (intro await_wf) (auto simp: wf_store_delete split: option.splits intro!: await_wf)

lemma dbKeys_items: "items (snd (dbKeys t st)) = items st"
  by (auto simp: dbKeys_def await_alt split: option.splits)

lemma clear_loop_items:
  "items (snd (clear_loop cs t tx st)) = items st"
  by (induction cs arbitrary: tx st) (auto simp: await_alt split: option.splits)

lemma clear_loop_tx:
  "clear_loop cs t tx st = (Inr tx', st') \<Longrightarrow> wf_store tx \<Longrightarrow> wf_store tx'"
proof (induction cs arbitrary: tx st)
  case Nil
  then show ?case by (auto simp: await_alt split: option.splits)
next
  case (Cons c cs)
  from Cons.prems show ?case
    by (auto simp: await_alt wf_store_delete split: option.splits if_splits
             dest!: Cons.IH)
qed

lemma dbClear_wf: "wf_store (items st) \<Longrightarrow> wf_store (items (snd (dbClear t st)))"
proof -
  assume w: "wf_store (items st)"
  let ?s = "advance st"
  obtain r s1 where cl: "clear_loop (items ?s) t (items ?s) ?s = (r, s1)"
    by (cases "clear_loop (items ?s) t (items ?s) ?s")
  have i1: "items s1 = items st"
    using clear_loop_items[of "items ?s" t "items ?s" ?s] cl by simp
  show ?thesis
  proof (cases r)
    case (Inl e)
    with cl i1 w show ?thesis
      by (auto simp: dbClear_def await_alt split: option.splits)
  next
    case (Inr tx')
    with cl w have "wf_store tx'" using clear_loop_tx[of "items ?s" t "items ?s" ?s tx' s1] by simp
    with cl Inr i1 w show ?thesis
      by (auto simp: dbClear_def await_alt split: option.splits)
  qed
qed

text \<open>Under any faults, the listener keeps the keys of the store unique.\<close>

lemma post_response_items:
  "post_response src target r st = (x, st') \<Longrightarrow> items st' = items st"
  by (auto simp: post_response_def split: if_splits)

lemma on_message_wf:
  "wf_store (items st) \<Longrightarrow> wf_store (items (snd (on_message ev now st)))"
proof -
  assume w: "wf_store (items st)"
  have "wf_store (items st')" if "run_action d og now st = Some (r, st')" for d og r st'
    using that w dbSet_wf[of st "req_key d" "req_value d" "req_options d" og now]
      dbGet_wf[of st "req_key d" og now] dbRemove_wf[of st "req_key d" og]
      dbClear_wf[of st og] dbKeys_items[of og st]
    by (auto simp: run_action_def split: if_splits prod.splits)
  then show ?thesis using w
    by (auto simp: on_message_def Let_def split: option.splits sum.splits prod.splits
             dest!: post_response_items)
qed

text \<open>
  What \<open>set\<close> creates on an absent key when \<open>options.acl.write\<close> is absent, \<open>null\<close> or
  an array (that does not hold itself): the write list is \<open>options.acl?.write ??
  [tenant]\<close> with the tenant appended when it lacks it; value and read list are those
  of the request, with that write list wherever they share the request's array;
  \<open>expiresAt\<close> is the double \<open>now + ttl * 1000\<close> when \<open>options.ttl\<close> is a number other
  than 0 and NaN, and \<open>null\<close> otherwise. This whatever the Durable Store does before the
  call succeeds.
\<close>

lemma dbSet_creates:
  assumes "store_get (items st) k = None"
    and "dbSet k v opts origin now st = (Inr u, st')"
    and "acl = (case opts of None \<Rightarrow> JUndefined | Some ob \<Rightarrow> opt_acl ob)"
    and "ttl = (case opts of None \<Rightarrow> None | Some ob \<Rightarrow> opt_ttl ob)"
    and "given = opt_chain acl ''write''"
    and "given = JUndefined \<or> given = JNull \<or> given = JArr ws"
    and "alias_free given"
    and "written =
           JArr (case given of
                   JArr ws \<Rightarrow> if JStr origin \<in> set ws then ws else ws @ [JStr origin]
                 | _ \<Rightarrow> [JStr origin])"
    and "shared = (case given of JArr ws \<Rightarrow> written | _ \<Rightarrow> given)"
  shows "store_get (items st') k =
     Some \<lparr>item_key = k, item_value = inline shared v,
           acl_read =
             (if inline shared (opt_chain acl ''read'') \<in> {JUndefined, JNull}
              then JArr [JStr ''*''] else inline shared (opt_chain acl ''read'')),
           acl_write = written,
           expiresAt =
             (case ttl of
                None \<Rightarrow> None
              | Some t \<Rightarrow>
                  if num_truthy t then Some (js_add (Fin (of_int now)) (js_mul t (Fin 1000)))
                  else None)\<rparr>"
proof -
  let ?w0 = "nullish given (JArr [JStr origin])"
  let ?sh = "\<lambda>w. if given = JUndefined \<or> given = JNull then given else w"
  let ?it = "\<lambda>w. \<lparr>item_key = k, item_value = inline (?sh w) v,
                  acl_read = nullish (inline (?sh w) (opt_chain acl ''read'')) (JArr [JStr ''*'']),
                  acl_write = w,
                  expiresAt =
                    (case ttl of
                       None \<Rightarrow> None
                     | Some t \<Rightarrow>
                         if num_truthy t
                         then Some (js_add (Fin (of_int now)) (js_mul t (Fin 1000)))
                         else None)\<rparr>"
  let ?s2 = "advance (advance st)"
  from assms(2) have
    "(case force_add ?w0 origin of
        Inl e \<Rightarrow> (Inl e, ?s2)
      | Inr w \<Rightarrow> await ?s2 (\<lambda>st2. await st2 (\<lambda>st'.
           (Inr (), st'\<lparr>items := store_put (items st') (?it w),
                           events := events st' @ [(k, Set)]\<rparr>)))) = (Inr u, st')"
    unfolding dbSet_def Let_def assms(3)[symmetric] assms(4)[symmetric] assms(5)[symmetric]
    using assms(1) by (auto dest!: await_InrD)
  then obtain w where fa: "force_add ?w0 origin = Inr w"
    and "await ?s2 (\<lambda>st2. await st2 (\<lambda>st'.
           (Inr (), st'\<lparr>items := store_put (items st') (?it w),
                           events := events st' @ [(k, Set)]\<rparr>))) = (Inr u, st')"
    by (auto split: sum.splits)
  then have st': "items st' = store_put (items st) (?it w)"
    by (auto dest!: await_InrD)
  have w: "w = written"
    using fa assms(6) unfolding assms(8) by (auto simp: nullish_def split: if_splits)
  have sh: "?sh w = shared"
    using assms(6) unfolding assms(9) w by auto
  show ?thesis
    unfolding st' using store_get_put_same[of "items st" "?it w"]
    by (simp add: w sh nullish_def split: option.splits)
qed

lemma dbSet_creates_example:
  "store_get (items (snd (dbSet ''k'' (JObj [(''list'', JAlias)])
        (Some \<lparr>opt_acl = JObj [(''read'', JAlias), (''write'', JArr [JStr ''https://b''])],
               opt_ttl = Some (Fin 60)\<rparr>)
        ''https://a'' 1000 (core0 [other_item])))) ''k'' =
       Some \<lparr>item_key = ''k'',
             item_value = JObj [(''list'', JArr [JStr ''https://b'', JStr ''https://a''])],
             acl_read = JArr [JStr ''https://b'', JStr ''https://a''],
             acl_write = JArr [JStr ''https://b'', JStr ''https://a''],
             expiresAt = Some (Fin 61000)\<rparr>"
proof -
  let ?o = "Some \<lparr>opt_acl = JObj [(''read'', JAlias), (''write'', JArr [JStr ''https://b''])],
                  opt_ttl = Some (Fin 60)\<rparr>"
  let ?r = "dbSet ''k'' (JObj [(''list'', JAlias)]) ?o ''https://a'' 1000 (core0 [other_item])"
  have h1: "store_get (items (core0 [other_item])) ''k'' = None"
    by (simp add: core0_def store_get_def other_item_def)
  have h2: "fst ?r = Inr ()"
    by (simp add: dbSet_nofault core0_def store_get_def other_item_def nullish_def Let_def
          del: js_mul.simps js_add.simps)
  then have h3: "?r = (Inr (), snd ?r)" by (metis prod.collapse)
  have h6: "opt_chain (JObj [(''read'', JAlias), (''write'', JArr [JStr ''https://b''])]) ''write''
              = JUndefined
            \<or> opt_chain (JObj [(''read'', JAlias), (''write'', JArr [JStr ''https://b''])])
                 ''write'' = JNull
            \<or> opt_chain (JObj [(''read'', JAlias), (''write'', JArr [JStr ''https://b''])])
                 ''write'' = JArr [JStr ''https://b'']"
    by simp
  have h7: "alias_free
              (opt_chain (JObj [(''read'', JAlias), (''write'', JArr [JStr ''https://b''])])
                 ''write'')"
    by simp
  have m: "js_add (Fin 1000) (js_mul (Fin 60) (Fin 1000)) = Fin 61000"
    by (simp add: to_double_numeral)
  from dbSet_creates [OF h1 h3 _ _ refl h6 h7 refl refl] show ?thesis
    by (simp add: m del: js_mul.simps js_add.simps)
qed

section \<open>Facts about the Client Proxy\<close>

lemma sendRequest_failed:
  "coreState c = Failed \<Longrightarrow>
   sendRequest e msg ch c =
     (Rejected (''Error'', ''GlobalLocalStorage core is in a failed state.''), c)"
  by (simp add: sendRequest_def)

lemma init_no_dom: "\<not> has_dom e \<Longrightarrow> init e cfg c = (Inr (), c\<lparr>coreState := Failed\<rparr>)"
  by (simp add: init_def)

lemma init_from_failed:
  "has_dom e \<Longrightarrow> coreState c = Failed \<Longrightarrow> coreState (snd (init e cfg c)) = Initializing"
  by (simp add: init_def Let_def split: option.splits)

lemma apply_op_failed:
  "coreState c = Failed \<Longrightarrow> \<not> has_dom e \<or> \<not> is_init x \<Longrightarrow>
   coreState (apply_op e x c) = Failed"
  by (cases x)
     (auto simp: init_no_dom sendRequest_failed setItem_def getItem_def removeItem_def
        clear_def keys_def Let_def split: option.splits)

lemma map_of_delete_same: "map_of (AList.delete k xs) k = None"
  by (simp add: AList.delete_conv')

lemma map_of_delete_other: "k' \<noteq> k \<Longrightarrow> map_of (AList.delete k xs) k' = map_of xs k'"
  by (simp add: AList.delete_conv')

text \<open>
  A listener changes the state only for a response to a pending request, and then the
  request is pending no more: the listeners after the first find nothing to do.
\<close>

lemma handle_message_absent:
  "map_of (pendingRequests c) (r_requestId r) = None \<Longrightarrow> handle_message og src act r c = c"
  by (simp add: handle_message_def)

lemma handle_message_pending:
  "map_of (pendingRequests (handle_message og src act r c)) (r_requestId r) = None
   \<or> handle_message og src act r c = c"
  by (simp add: handle_message_def map_of_delete_same split: option.split)

lemma handle_message_idem:
  "handle_message og src act r (handle_message og src act r c) = handle_message og src act r c"
  using handle_message_pending[of og src act r c] handle_message_absent by metis

lemma funpow_idem:
  assumes "f (f x) = f x" and "0 < n"
  shows "(f ^^ n) x = f x"
  using assms(2)
proof (induction n)
  case 0
  then show ?case by simp
next
  case (Suc n)
  then show ?case using assms(1) by (cases n) auto
qed

lemma on_window_message_once:
  "0 < listeners c \<Longrightarrow>
   on_window_message og src act r c = handle_message og src act r c"
  unfolding on_window_message_def by (rule funpow_idem[OF handle_message_idem])

text \<open>A fault at the first awaited call of any operation is what the operation raises.\<close>

lemma first_fault_raised:
  assumes "faults st = Some e # fs"
    and "action d \<in> {''setItem'', ''getItem'', ''removeItem'', ''clear'', ''keys''}"
  shows "run_action d origin now st = Some (Inl e, st\<lparr>faults := fs\<rparr>)"
  using assms
  by (auto simp: run_action_def dbSet_def dbGet_def dbRemove_def dbClear_def dbKeys_def
        await_def)

text \<open>The example states, written out.\<close>

lemma failed_client_eq:
  "failed_client =
     client0\<lparr>coreState := Failed, coreOrigin := Some core_origin, channel := True,
       iframes := [defaultCoreUrl], listeners := 1\<rparr>"
  by (simp add: failed_client_def on_iframe_error_def init_def browser_def client0_def
        cfg0_def origin_of_def core_origin_def Let_def)

lemma ready_client_eq:
  "ready_client =
     client0\<lparr>coreState := Ready, coreWindow := Some 0, coreOrigin := Some core_origin,
       channel := True, iframes := [defaultCoreUrl], listeners := 1\<rparr>"
  by (simp add: ready_client_def on_iframe_load_def processRequestQueue_def init_def
        browser_def client0_def cfg0_def origin_of_def core_origin_def Let_def)

lemma core_origin_not_opaque: "core_origin \<noteq> ''null''"
  by (simp add: core_origin_def)

lemma busy_client_eq:
  "busy_client =
     ready_client\<lparr>requestIdCounter := 2,
       pendingRequests := [(0, NoThen), (1, ThenCache ''x'')],
       posted := [(Some 0, Some core_origin,
                    \<lparr>m_action = ''setItem'', m_key = Some ''k'', m_value = JNum 1,
                     m_options = JObj [], m_requestId = 0\<rparr>),
                  (Some 0, Some core_origin, get_message ''x'' 1)]\<rparr>"
  by (simp add: busy_client_def ready_client_eq setItem_def getItem_def sendRequest_def
        post_to_core_def core_origin_not_opaque client0_def spread_def get_message_def Let_def)

lemma waiting_client_eq:
  "waiting_client =
     ready_client\<lparr>requestIdCounter := 1, pendingRequests := [(0, ThenCache ''x'')],
       posted := [(Some 0, Some core_origin, get_message ''x'' 0)]\<rparr>"
  by (simp add: waiting_client_def ready_client_eq getItem_def sendRequest_def post_to_core_def
        core_origin_not_opaque client0_def get_message_def Let_def)

lemma quota_run:
  "run_action (ev_data quota_event) (ev_origin quota_event) 1000 quota_core =
     Some (Inl (StoreFault ''QuotaExceededError'' ''full''), core0 [])"
  by (simp add: run_action_def quota_event_def quota_core_def core0_def dbSet_def await_def
        store_get_def nullish_def Let_def)

text \<open>
  A sender of opaque origin gets no response: \<open>event.origin\<close> is \<open>null\<close>, both
  \<open>postMessage\<close> calls of the listener throw, and the second is outside any \<open>try\<close>.
\<close>

lemma on_message_opaque:
  assumes "ev_source ev = Some w" and "ev_origin ev = ''null''"
    and "run_action (ev_data ev) (ev_origin ev) now st = Some (r, st1)"
  shows "on_message ev now st =
           (Some (SyntaxError ''Invalid target origin in a call to postMessage''), st1)"
  using assms by (cases r) (simp_all add: on_message_def post_response_def)

text \<open>
  A ready proxy whose core has an opaque origin posts nothing: \<open>postMessage\<close> throws in
  the executor of the promise, the call is rejected and stays registered.
\<close>

lemma getItem_opaque:
  assumes "cache c k = None" and "coreState c = Ready" and "coreWindow c = Some w"
    and "coreOrigin c = Some ''null''"
  shows "getItem e k c =
           (Rejected (''SyntaxError'', ''Invalid target origin in a call to postMessage''),
            c\<lparr>requestIdCounter := Suc (requestIdCounter c),
              pendingRequests :=
                AList.update (requestIdCounter c) (ThenCache k) (pendingRequests c),
              settled :=
                settle (requestIdCounter c)
                  (Inl (''SyntaxError'', ''Invalid target origin in a call to postMessage''))
                  (settled c)\<rparr>)"
  using assms by (simp add: getItem_def sendRequest_def post_to_core_def Let_def)

text \<open>The invariant of the proxy, and its preservation by every transition.\<close>

lemma client0_inv: "client_inv e client0"
  by (simp add: client_inv_def client0_def)

lemma map_of_fresh: "list_all (\<lambda>p. fst p < n) xs \<Longrightarrow> map_of xs (n::nat) = None"
  by (induction xs) auto

lemma list_all_update:
  "list_all P xs \<Longrightarrow> P (k, v) \<Longrightarrow> list_all P (AList.update k v xs)"
  by (induction xs) auto

lemma list_all_delete: "list_all P xs \<Longrightarrow> list_all P (AList.delete k xs)"
  by (induction xs) auto

lemma init_inv: "client_inv e c \<Longrightarrow> client_inv e (snd (init e cfg c))"
  by (auto simp: init_def client_inv_def Let_def split: option.splits)

lemma init_keeps:
  "pendingRequests (snd (init e cfg c)) = pendingRequests c"
  "settled (snd (init e cfg c)) = settled c"
  "requestIdCounter (snd (init e cfg c)) = requestIdCounter c"
  by (auto simp: init_def Let_def split: option.splits)

lemma sendRequest_inv:
  assumes "client_inv e (c\<lparr>requestIdCounter := m_requestId msg\<rparr>)"
    and "requestIdCounter c = Suc (m_requestId msg)"
  shows "client_inv e (snd (sendRequest e msg ch c))"
proof -
  define c1 where "c1 = (if coreState c = Uninitialized then snd (init e cfg0 c) else c)"
  define c2 where
    "c2 = c1\<lparr>pendingRequests := AList.update (m_requestId msg) ch (pendingRequests c1)\<rparr>"
  define err :: js_error where
    "err = (''SyntaxError'', ''Invalid target origin in a call to postMessage'')"
  have pend: "pendingRequests c1 = pendingRequests c" "settled c1 = settled c"
    "requestIdCounter c1 = requestIdCounter c"
    by (simp_all add: c1_def init_keeps)
  have i0: "client_inv e c"
    using assms by (auto simp: client_inv_def list_all_iff)
  then have i1: "client_inv e c1" by (simp add: c1_def init_inv)
  have u: "coreState c1 \<noteq> Uninitialized" if "coreState c1 \<noteq> Failed"
  proof (cases "coreState c = Uninitialized")
    case True
    then show ?thesis
      using that by (auto simp: c1_def init_def Let_def split: option.splits if_splits)
  next
    case False
    then show ?thesis by (simp add: c1_def)
  qed
  have fresh: "map_of (settled c) (m_requestId msg) = None"
    using assms(1) by (auto simp: client_inv_def intro: map_of_fresh)
  have a: "list_all (\<lambda>p. fst p < requestIdCounter c)
             (AList.update (m_requestId msg) ch (pendingRequests c))"
    using i0 assms(2) by (auto intro!: list_all_update simp: client_inv_def)
  have b: "list_all (\<lambda>p. map_of (settled c) (fst p) = None)
             (AList.update (m_requestId msg) ch (pendingRequests c))"
    if "list_all (\<lambda>p. map_of (settled c) (fst p) = None) (pendingRequests c)"
    using that fresh by (auto intro!: list_all_update)
  have i2: "client_inv e c2" if "coreState c1 \<noteq> Failed"
    using i1 u[OF that] that a b unfolding client_inv_def c2_def
    by (cases "coreState c1") (auto simp: pend)
  have s: "list_all (\<lambda>p. fst p < requestIdCounter c)
             (settle (m_requestId msg) x (settled c))" for x
    using i0 assms(2) by (simp add: settle_def client_inv_def)
  have i3: "client_inv e (c2\<lparr>settled := settle (m_requestId msg) x (settled c2)\<rparr>)"
    if "coreState c1 \<noteq> Failed" "coreOrigin c1 = Some ''null''" for x
    using i2[OF that(1)] that(2) s[of x] unfolding client_inv_def c2_def
    by (auto simp: pend)
  have sr: "snd (sendRequest e msg ch c) =
         (if coreState c1 = Failed then c1
          else if coreState c1 = Ready
               then (case coreWindow c1 of
                       None \<Rightarrow>
                         c2\<lparr>settled :=
                              settle (m_requestId msg)
                                (Inl (''TypeError'', ''coreWindow is null'')) (settled c2)\<rparr>
                     | Some w \<Rightarrow>
                         if coreOrigin c1 = Some ''null''
                         then c2\<lparr>settled := settle (m_requestId msg) (Inl err) (settled c2)\<rparr>
                         else c2\<lparr>posted := posted c2 @ [(Some w, coreOrigin c2, msg)]\<rparr>)
               else c2\<lparr>requestQueue := requestQueue c2 @ [msg]\<rparr>)"
    unfolding sendRequest_def Let_def cfg0_def[symmetric] c1_def[symmetric] c2_def[symmetric]
    by (simp add: post_to_core_def c2_def err_def split: option.split)
  show ?thesis
  proof (cases "coreState c1 = Failed")
    case True
    then show ?thesis using i1 by (simp add: sr)
  next
    case False
    note nf = this
    show ?thesis
    proof (cases "coreState c1 = Ready")
      case False
      have "client_inv e (c2\<lparr>requestQueue := requestQueue c2 @ [msg]\<rparr>)"
        using i2[OF nf] by (simp add: client_inv_def)
      with nf False show ?thesis by (simp add: sr)
    next
      case True
      then obtain w where w: "coreWindow c1 = Some w"
        using i1 by (auto simp: client_inv_def)
      show ?thesis
      proof (cases "coreOrigin c1 = Some ''null''")
        case False
        have "client_inv e (c2\<lparr>posted := posted c2 @ [(Some w, coreOrigin c2, msg)]\<rparr>)"
          using i2[OF nf] by (simp add: client_inv_def)
        with True nf w False show ?thesis by (simp add: sr)
      next
        case null: True
        from True nf w null i3[OF nf null] show ?thesis by (simp add: sr)
      qed
    qed
  qed
qed

lemma apply_op_inv: "client_inv e c \<Longrightarrow> client_inv e (apply_op e x c)"
proof (cases x)
  case (Init cfg)
  assume "client_inv e c"
  with Init show ?thesis by (simp add: init_inv)
next
  case (SetItem k v ob)
  assume i: "client_inv e c"
  then have "client_inv e (c\<lparr>cache := (cache c)(k := None)\<rparr>)" by (simp add: client_inv_def)
  with SetItem show ?thesis
    by (simp add: setItem_def Let_def sendRequest_inv)
next
  case (GetItem k)
  assume i: "client_inv e c"
  show ?thesis
  proof (cases "cache c k")
    case None
    with GetItem i show ?thesis by (simp add: getItem_def Let_def sendRequest_inv)
  next
    case (Some v)
    with GetItem i show ?thesis by (simp add: getItem_def)
  qed
next
  case (RemoveItem k)
  assume i: "client_inv e c"
  then have "client_inv e (c\<lparr>cache := (cache c)(k := None)\<rparr>)" by (simp add: client_inv_def)
  with RemoveItem show ?thesis
    by (simp add: removeItem_def Let_def sendRequest_inv)
next
  case Clear
  assume i: "client_inv e c"
  then have "client_inv e (c\<lparr>cache := Map.empty\<rparr>)" by (simp add: client_inv_def)
  with Clear show ?thesis
    by (simp add: clear_def Let_def sendRequest_inv)
next
  case Keys
  assume i: "client_inv e c"
  with Keys show ?thesis by (simp add: keys_def Let_def sendRequest_inv)
qed

lemma map_of_settle_other:
  "k \<noteq> rid \<Longrightarrow> map_of (settle rid x lg) k = map_of lg k"
  by (auto simp: settle_def map_add_def split: option.splits)

lemma handle_message_inv:
  assumes "client_inv e c"
  shows "client_inv e (handle_message og src act r c)"
proof (cases "handle_message og src act r c = c")
  case True
  with assms show ?thesis by simp
next
  case False
  then obtain ch where p: "map_of (pendingRequests c) (r_requestId r) = Some ch"
    and rd: "coreState c = Ready"
    by (auto simp: handle_message_def split: option.splits if_splits)
  then have "(r_requestId r, ch) \<in> set (pendingRequests c)" by (auto dest: map_of_SomeD)
  with assms have lt: "r_requestId r < requestIdCounter c"
    by (auto simp: client_inv_def list_all_iff)
  have s: "list_all (\<lambda>p. fst p < requestIdCounter c) (settle (r_requestId r) x (settled c))" for x
    using assms lt by (simp add: settle_def client_inv_def)
  have d: "list_all (\<lambda>p. map_of (settle (r_requestId r) x (settled c)) (fst p) = None)
             (AList.delete (r_requestId r) (pendingRequests c))"
    if "list_all (\<lambda>p. map_of (settled c) (fst p) = None) (pendingRequests c)" for x
    using that
    by (auto simp: list_all_iff AList.delete_eq map_of_settle_other)
  from assms s d rd show ?thesis
    by (auto simp: handle_message_def client_inv_def list_all_delete split: option.splits)
qed

lemma funpow_inv:
  assumes "\<And>x. P x \<Longrightarrow> P (f x)" and "P x"
  shows "P ((f ^^ n) x)"
  using assms by (induction n) auto

lemma on_window_message_inv:
  "client_inv e c \<Longrightarrow> client_inv e (on_window_message og src act r c)"
  unfolding on_window_message_def by (rule funpow_inv) (auto intro: handle_message_inv)

text \<open>\<open>processRequestQueue\<close> touches the queue and what was posted, nothing else.\<close>

lemma drain_fields: "\<exists>q p. snd (drain ms c) = c\<lparr>requestQueue := q, posted := p\<rparr>"
proof (induction ms arbitrary: c)
  case Nil
  show ?case by (simp, rule exI[of _ "[]"], rule exI[of _ "posted c"], simp)
next
  case (Cons m ms)
  show ?case
  proof (cases "post_to_core m (c\<lparr>requestQueue := ms\<rparr>)")
    case (Pair res c')
    show ?thesis
    proof (cases res)
      case (Inl err)
      with Pair have "c' = c\<lparr>requestQueue := ms\<rparr>"
        by (auto simp: post_to_core_def split: option.splits if_splits)
      with Pair Inl show ?thesis
        by (simp, intro exI[of _ ms] exI[of _ "posted c"], simp)
    next
      case (Inr u)
      with Pair obtain p where c': "c' = c\<lparr>requestQueue := ms, posted := p\<rparr>"
        by (auto simp: post_to_core_def split: option.splits if_splits)
      from Cons.IH[of c'] obtain q p' where "snd (drain ms c') = c'\<lparr>requestQueue := q, posted := p'\<rparr>"
        by blast
      with Pair Inr c' show ?thesis
        by (simp, intro exI[of _ q] exI[of _ p'], simp)
    qed
  qed
qed

lemma client_inv_fields:
  "client_inv e (c\<lparr>requestQueue := q, posted := p\<rparr>) = client_inv e c"
  by (simp add: client_inv_def)

lemma on_iframe_load_inv:
  assumes "client_inv e c" and "iframes c \<noteq> []"
  shows "client_inv e (on_iframe_load w c)"
proof -
  let ?c = "c\<lparr>coreWindow := Some w, coreState := Ready\<rparr>"
  have "client_inv e ?c" using assms by (auto simp: client_inv_def)
  moreover obtain q p where "on_iframe_load w c = ?c\<lparr>requestQueue := q, posted := p\<rparr>"
    unfolding on_iframe_load_def processRequestQueue_def
    using drain_fields[of "requestQueue ?c" ?c] by blast
  ultimately show ?thesis by (simp only: client_inv_fields)
qed

lemma on_iframe_error_inv:
  assumes i: "client_inv e c" and f: "iframes c \<noteq> []"
  shows "client_inv e (on_iframe_error u c)"
proof -
  have b: "list_all (\<lambda>p. fst p < n) lg \<Longrightarrow> list_all (\<lambda>k. k < n) ks \<Longrightarrow>
           list_all (\<lambda>p. fst p < n) (foldl (\<lambda>lg rid. settle rid x lg) lg ks)"
    for n x ks and lg :: "(nat \<times> (js_error + jsval)) list"
    by (induction ks arbitrary: lg) (auto simp: settle_def)
  have q: "list_all (\<lambda>k. k < requestIdCounter c)
             (filter (\<lambda>rid. map_of (pendingRequests c) rid \<noteq> None)
                (map m_requestId (requestQueue c)))"
    using i by (auto simp: client_inv_def list_all_iff dest!: map_of_SomeD)
  have p: "list_all (\<lambda>k. k < requestIdCounter c) (map fst (pendingRequests c))"
    using i by (auto simp: client_inv_def list_all_iff)
  from i f b[OF b[OF _ q] p] show ?thesis
    by (simp add: on_iframe_error_def client_inv_def Let_def)
qed

lemma step_inv: "client_inv e c \<Longrightarrow> enabled ev c \<Longrightarrow> client_inv e (step e ev c)"
proof (cases ev)
  case (IframeLoad w)
  assume "client_inv e c" "enabled ev c"
  with IframeLoad show ?thesis by (auto intro: on_iframe_load_inv)
next
  case (IframeError u)
  assume "client_inv e c" "enabled ev c"
  with IframeError show ?thesis by (auto intro: on_iframe_error_inv)
next
  case DomContentLoaded
  assume "client_inv e c"
  with DomContentLoaded show ?thesis
    by (auto simp: on_dom_content_loaded_def client_inv_def)
next
  case (Broadcast k act)
  assume "client_inv e c"
  with Broadcast show ?thesis by (auto simp: on_broadcast_def client_inv_def)
qed (auto simp: apply_op_inv on_window_message_inv)

text \<open>
  In a ready proxy the hypotheses of the response theorems hold: it has its core window
  and a listener, and, unless the core's origin is opaque, a pending call is not
  settled.
\<close>

lemma ready_inv:
  assumes "client_inv e c" and "coreState c = Ready"
  shows "\<exists>w og. coreWindow c = Some w \<and> coreOrigin c = Some og \<and> 0 < listeners c"
    and "coreOrigin c \<noteq> Some ''null'' \<Longrightarrow> map_of (pendingRequests c) rid = Some ch \<Longrightarrow>
         map_of (settled c) rid = None"
  using assms by (auto simp: client_inv_def list_all_iff dest!: map_of_SomeD)

lemma reachable_inv: "reachable e c \<Longrightarrow> client_inv e c"
  by (induction rule: reachable.induct) (auto simp: client0_inv step_inv)

section \<open>Claims about the Storage Core\<close>

text \<open>
  C1. When an item is stored under \<open>k\<close> and tenant \<open>t2\<close> has no permission on its
  \<open>acl.write\<close>, \<open>set(k, value, options, t2)\<close> fails, the records of the store (so the
  value, ACL and \<open>expiresAt\<close> under \<open>k\<close>) are as before and no ChangeEvent is posted;
  this whatever the Durable Store does. On a store that works the failure is the
  permission error of the write check.
\<close>

theorem dbSet_denied:
  assumes "store_get (items st) k = Some ex" and "\<not> hasPermission (acl_write ex) t2"
  shows "(\<exists>e. fst (dbSet k v opts t2 now st) = Inl e)
       \<and> items (snd (dbSet k v opts t2 now st)) = items st
       \<and> store_get (items (snd (dbSet k v opts t2 now st))) k = Some ex
       \<and> events (snd (dbSet k v opts t2 now st)) = events st
       \<and> (faults st = [] \<longrightarrow>
            fst (dbSet k v opts t2 now st) = Inl (PermissionDenied t2 ''write'' k))"
  using assms
  by (auto simp: dbSet_def await_def Let_def split: list.splits option.splits sum.splits)

theorem dbSet_denied_witness:
  "store_get (items (core0 [ex_item])) ''k'' = Some ex_item
   \<and> \<not> hasPermission (acl_write ex_item) ''https://b''
   \<and> fst (dbSet ''k'' (JNum 2) None ''https://b'' 5 (core0 [ex_item])) =
       Inl (PermissionDenied ''https://b'' ''write'' ''k'')
   \<and> items (snd (dbSet ''k'' (JNum 2) None ''https://b'' 5 (core0 [ex_item]))) = [ex_item]
   \<and> events (snd (dbSet ''k'' (JNum 2) None ''https://b'' 5 (core0 [ex_item]))) = []"
proof -
  have h1: "store_get (items (core0 [ex_item])) ''k'' = Some ex_item"
    by (simp add: core0_def store_get_def ex_item_def)
  have h2: "\<not> hasPermission (acl_write ex_item) ''https://b''"
    by (simp add: ex_item_def)
  have f: "faults (core0 [ex_item]) = []" by (simp add: core0_def)
  from dbSet_denied [OF h1 h2, of "JNum 2" None 5] f h1 h2 show ?thesis
    by (simp add: core0_def)
qed

text \<open>
  C2. An item whose \<open>expiresAt\<close> is the number 0 is set and lies in the past at any
  later time, yet \<open>get\<close> neither deletes it nor answers \<open>null\<close>: the test
  \<open>item.expiresAt && ...\<close> takes 0 for "no expiry". Such an item is what
  \<open>set\<close> with \<open>ttl = -1800000000\<close> writes at clock 1800000000000; a \<open>get\<close> one second
  later returns its value, leaves it stored and posts no event.
\<close>

theorem dbGet_zero_expiry_kept:
  "dbSet ''k'' (JNum 1) (Some \<lparr>opt_acl = JUndefined, opt_ttl = Some (Fin (- 1800000000))\<rparr>)
     ''https://a'' 1800000000000 (core0 []) =
     (Inr (), \<lparr>items = [ex_item\<lparr>expiresAt := Some (Fin 0)\<rparr>], events = [(''k'', Set)],
               outbox = [], faults = []\<rparr>)
   \<and> dbGet ''k'' ''https://a'' 1800000001000
        \<lparr>items = [ex_item\<lparr>expiresAt := Some (Fin 0)\<rparr>], events = [(''k'', Set)],
         outbox = [], faults = []\<rparr> =
     (Inr (JNum 1), \<lparr>items = [ex_item\<lparr>expiresAt := Some (Fin 0)\<rparr>], events = [(''k'', Set)],
                     outbox = [], faults = []\<rparr>)"
proof -
  have m: "js_mul (Fin (- 1800000000)) (Fin 1000) = Fin (- 1800000000000)"
    by (simp add: to_double_numeral)
  have a: "js_add (Fin 1800000000000) (Fin (- 1800000000000)) = Fin 0"
    by (simp add: to_double_def)
  show ?thesis
    by (simp add: dbSet_nofault dbGet_nofault core0_def ex_item_def store_get_def store_put_def
          nullish_def expired_def Let_def m a del: js_mul.simps js_add.simps)
qed

text \<open>
  C3. On an absent key \<open>set\<close> adds the tenant to the write list with \<open>push\<close>, in
  place, after \<open>newAcl.read\<close> was taken from the request: a request of \<open>https://a\<close>
  that passes one array \<open>["https://b"]\<close> as \<open>acl.read\<close> and as \<open>acl.write\<close> has its
  item stored with \<open>acl.read = ["https://b", "https://a"]\<close>, not with the read list it
  sent, and \<open>https://a\<close> may read it. The same request with a read list of its own has
  it stored as sent.
\<close>

theorem dbSet_shared_list:
  "dbSet ''k'' (JNum 1)
     (Some \<lparr>opt_acl = JObj [(''read'', JAlias), (''write'', JArr [JStr ''https://b''])],
            opt_ttl = None\<rparr>)
     ''https://a'' 1000 (core0 []) =
     (Inr (),
      \<lparr>items = [\<lparr>item_key = ''k'', item_value = JNum 1,
                  acl_read = JArr [JStr ''https://b'', JStr ''https://a''],
                  acl_write = JArr [JStr ''https://b'', JStr ''https://a''],
                  expiresAt = None\<rparr>],
       events = [(''k'', Set)], outbox = [], faults = []\<rparr>)
   \<and> hasPermission (JArr [JStr ''https://b'', JStr ''https://a'']) ''https://a''
   \<and> \<not> hasPermission (JArr [JStr ''https://b'']) ''https://a''
   \<and> dbSet ''k'' (JNum 1)
       (Some \<lparr>opt_acl = JObj [(''read'', JArr [JStr ''https://b'']),
                               (''write'', JArr [JStr ''https://b''])],
              opt_ttl = None\<rparr>)
       ''https://a'' 1000 (core0 []) =
       (Inr (),
        \<lparr>items = [\<lparr>item_key = ''k'', item_value = JNum 1,
                    acl_read = JArr [JStr ''https://b''],
                    acl_write = JArr [JStr ''https://b'', JStr ''https://a''],
                    expiresAt = None\<rparr>],
         events = [(''k'', Set)], outbox = [], faults = []\<rparr>)"
  by (simp add: dbSet_nofault core0_def store_get_def store_put_def nullish_def Let_def)

text \<open>
  C4. On a store that works, \<open>clear(t)\<close> succeeds; of the items stored before, those on
  whose \<open>acl.write\<close> \<open>t\<close> has permission are gone and every other one is still stored
  as it was (value, ACL, \<open>expiresAt\<close>); no key is added; and the events posted are
  \<open>remove\<close> events, exactly one for the key of each deleted item.
\<close>

theorem dbClear_scoped:
  assumes "faults st = []" and "wf_store (items st)" and "st' = snd (dbClear t st)"
  shows "fst (dbClear t st) = Inr ()
     \<and> (\<forall>it \<in> set (items st).
           store_get (items st') (item_key it) =
             (if hasPermission (acl_write it) t then None else Some it))
     \<and> (\<forall>k. store_get (items st) k = None \<longrightarrow> store_get (items st') k = None)
     \<and> (\<exists>new. events st' = events st @ new \<and>
           (\<forall>k a. count_list new (k, a) =
              (if a = Remove \<and>
                  (\<exists>it \<in> set (items st). item_key it = k \<and> hasPermission (acl_write it) t)
               then 1 else 0)))"
proof -
  have d: "distinct (map item_key (items st))"
    using assms(2) by (simp add: wf_store_def)
  have st': "st' = st\<lparr>events := events st @
            map (\<lambda>c. (item_key c, Remove))
              (filter (\<lambda>c. hasPermission (acl_write c) t) (items st)),
          items := filter (\<lambda>i. \<not> hasPermission (acl_write i) t) (items st)\<rparr>"
    using assms by (simp add: dbClear_nofault)
  have 1: "fst (dbClear t st) = Inr ()"
    using assms by (simp add: dbClear_nofault)
  have 2: "\<forall>it \<in> set (items st).
           store_get (items st') (item_key it) =
             (if hasPermission (acl_write it) t then None else Some it)"
    by (simp add: st' store_get_filter[OF d])
  have 3: "\<forall>k. store_get (items st) k = None \<longrightarrow> store_get (items st') k = None"
    by (simp add: st' store_get_filter_absent)
  have 4: "\<exists>new. events st' = events st @ new \<and>
           (\<forall>k a. count_list new (k, a) =
              (if a = Remove \<and>
                  (\<exists>it \<in> set (items st). item_key it = k \<and> hasPermission (acl_write it) t)
               then 1 else 0))"
    unfolding st' using count_list_map_key[OF d, of "\<lambda>c. hasPermission (acl_write c) t"]
    by simp
  from 1 2 3 4 show ?thesis by blast
qed

theorem dbClear_scoped_witness:
  "faults (core0 [ex_item, other_item]) = []
   \<and> wf_store (items (core0 [ex_item, other_item]))
   \<and> fst (dbClear ''https://a'' (core0 [ex_item, other_item])) = Inr ()
   \<and> store_get (items (snd (dbClear ''https://a'' (core0 [ex_item, other_item])))) ''k'' = None
   \<and> store_get (items (snd (dbClear ''https://a'' (core0 [ex_item, other_item])))) ''j'' =
       Some other_item"
proof -
  let ?st = "core0 [ex_item, other_item]"
  have f: "faults ?st = []" by (simp add: core0_def)
  have w: "wf_store (items ?st)"
    by (simp add: core0_def wf_store_def ex_item_def other_item_def)
  have its: "items ?st = [ex_item, other_item]" by (simp add: core0_def)
  have k: "item_key ex_item = ''k''" "item_key other_item = ''j''"
    "hasPermission (acl_write ex_item) ''https://a''"
    "\<not> hasPermission (acl_write other_item) ''https://a''"
    by (simp_all add: ex_item_def other_item_def)
  from dbClear_scoped [OF f w refl, of "''https://a''"] f w show ?thesis
    by (simp add: its k)
qed

text \<open>
  C5. When an item is stored under the key and the tenant has write permission on it,
  \<open>set\<close> (on a store that works) succeeds and the stored ACL becomes \<open>{read:
  options.acl?.read ?? ["*"], write: options.acl?.write ?? [tenant]}\<close>, whatever it was
  (a read list that is the request's write array is stored as that array): nothing of
  the old ACL is kept, and the tenant is not added to a write list it supplied, so that
  a list naming neither the tenant nor \<open>*\<close> leaves it without write permission.
\<close>

theorem dbSet_replaces_acl:
  assumes "faults st = []"
    and "store_get (items st) k = Some ex"
    and "hasPermission (acl_write ex) origin"
    and "acl = (case opts of None \<Rightarrow> JUndefined | Some ob \<Rightarrow> opt_acl ob)"
    and "st' = snd (dbSet k v opts origin now st)"
    and "stored = store_get (items st') k"
  shows "fst (dbSet k v opts origin now st) = Inr ()
     \<and> map_option acl_read stored =
         Some (if inline (opt_chain acl ''write'') (opt_chain acl ''read'') \<in> {JUndefined, JNull}
               then JArr [JStr ''*'']
               else inline (opt_chain acl ''write'') (opt_chain acl ''read''))
     \<and> map_option acl_write stored =
         Some (if opt_chain acl ''write'' \<in> {JUndefined, JNull} then JArr [JStr origin]
               else opt_chain acl ''write'')
     \<and> (\<forall>ws. opt_chain acl ''write'' = JArr ws \<and> JStr origin \<notin> set ws \<and> JStr ''*'' \<notin> set ws
            \<longrightarrow> map_option (\<lambda>it. hasPermission (acl_write it) origin) stored = Some False)"
proof -
  let ?given = "opt_chain acl ''write''"
  let ?w = "nullish ?given (JArr [JStr origin])"
  let ?sh = "if ?given = JUndefined \<or> ?given = JNull then ?given else ?w"
  let ?it = "\<lparr>item_key = k, item_value = inline ?sh v,
              acl_read = nullish (inline ?sh (opt_chain acl ''read'')) (JArr [JStr ''*'']),
              acl_write = ?w,
              expiresAt =
                (case (case opts of None \<Rightarrow> None | Some ob \<Rightarrow> opt_ttl ob) of
                   None \<Rightarrow> None
                 | Some t \<Rightarrow>
                     if num_truthy t
                     then Some (js_add (Fin (of_int now)) (js_mul t (Fin 1000)))
                     else None)\<rparr>"
  have sh: "?sh = ?given" by (simp add: nullish_def)
  have r: "dbSet k v opts origin now st =
             (Inr (), st\<lparr>items := store_put (items st) ?it, events := events st @ [(k, Set)]\<rparr>)"
    using assms(1-4) by (simp add: dbSet_nofault Let_def)
  have g: "stored = Some ?it"
    unfolding assms(6) assms(5) r using store_get_put_same[of "items st" ?it] by simp
  show ?thesis
    unfolding g r by (auto simp: sh nullish_def)
qed

theorem dbSet_replaces_acl_witness:
  "faults (core0 [other_item]) = []
   \<and> store_get (items (core0 [other_item])) ''j'' = Some other_item
   \<and> hasPermission (acl_write other_item) ''https://b''
   \<and> fst (dbSet ''j'' (JNum 2) (Some \<lparr>opt_acl = JObj [(''write'', JArr [JStr ''https://c''])],
          opt_ttl = None\<rparr>) ''https://b'' 7 (core0 [other_item])) = Inr ()
   \<and> map_option acl_read (store_get (items (snd (dbSet ''j'' (JNum 2)
        (Some \<lparr>opt_acl = JObj [(''write'', JArr [JStr ''https://c''])], opt_ttl = None\<rparr>)
        ''https://b'' 7 (core0 [other_item])))) ''j'') = Some (JArr [JStr ''*''])
   \<and> map_option acl_write (store_get (items (snd (dbSet ''j'' (JNum 2)
        (Some \<lparr>opt_acl = JObj [(''write'', JArr [JStr ''https://c''])], opt_ttl = None\<rparr>)
        ''https://b'' 7 (core0 [other_item])))) ''j'') = Some (JArr [JStr ''https://c''])
   \<and> map_option (\<lambda>it. hasPermission (acl_write it) ''https://b'')
        (store_get (items (snd (dbSet ''j'' (JNum 2)
        (Some \<lparr>opt_acl = JObj [(''write'', JArr [JStr ''https://c''])], opt_ttl = None\<rparr>)
        ''https://b'' 7 (core0 [other_item])))) ''j'') = Some False"
proof -
  have f: "faults (core0 [other_item]) = []" by (simp add: core0_def)
  have h1: "store_get (items (core0 [other_item])) ''j'' = Some other_item"
    by (simp add: core0_def store_get_def other_item_def)
  have h2: "hasPermission (acl_write other_item) ''https://b''"
    by (simp add: other_item_def)
  from dbSet_replaces_acl [OF f h1 h2 refl refl refl, of "JNum 2"
      "Some \<lparr>opt_acl = JObj [(''write'', JArr [JStr ''https://c''])], opt_ttl = None\<rparr>" 7]
    f h1 h2
  show ?thesis by simp
qed

text \<open>
  C6, as the spec states it, fails: \<open>keys\<close> does not look at \<open>expiresAt\<close>. The item
  \<open>session\<close>, readable by all, expired at 1001 ms and is still listed for \<open>https://a\<close>
  at any later time.
\<close>

theorem dbKeys_lists_expired:
  "expired session_item 2000
   \<and> hasPermission (acl_read session_item) ''https://a''
   \<and> fst (dbKeys ''https://a'' (core0 [session_item])) = Inr [''session'']"
  by (simp add: dbKeys_nofault core0_def session_item_def expired_def)

text \<open>
  C6, amended. On a store that works, \<open>keys\<close> lists the key of every stored item the
  tenant may read, expired or not, and changes nothing (it evicts nothing); once a
  \<open>get\<close> of the key has found the item expired, \<open>keys\<close> no longer lists that key.
\<close>

theorem dbKeys_no_eviction:
  assumes "faults st = []" and "it \<in> set (items st)"
    and "hasPermission (acl_read it) t"
  shows "(\<exists>ks. dbKeys t st = (Inr ks, st) \<and> item_key it \<in> set ks)
       \<and> (expired it now \<and> store_get (items st) (item_key it) = Some it \<longrightarrow>
            (\<exists>ks'. fst (dbKeys t (snd (dbGet (item_key it) t' now st))) = Inr ks'
                   \<and> item_key it \<notin> set ks'))"
proof -
  have 1: "\<exists>ks. dbKeys t st = (Inr ks, st) \<and> item_key it \<in> set ks"
    using assms by (auto simp: dbKeys_nofault)
  have 2: "\<exists>ks'. fst (dbKeys t (snd (dbGet (item_key it) t' now st))) = Inr ks'
                   \<and> item_key it \<notin> set ks'"
    if "expired it now" "store_get (items st) (item_key it) = Some it"
    using that assms(1) by (auto simp: dbGet_nofault dbKeys_nofault store_delete_def)
  from 1 2 show ?thesis by blast
qed

theorem dbKeys_no_eviction_witness:
  "faults (core0 [session_item]) = []
   \<and> session_item \<in> set (items (core0 [session_item]))
   \<and> hasPermission (acl_read session_item) ''https://a''
   \<and> expired session_item 2000
   \<and> store_get (items (core0 [session_item])) (item_key session_item) = Some session_item
   \<and> dbKeys ''https://a'' (core0 [session_item]) = (Inr [''session''], core0 [session_item])
   \<and> fst (dbKeys ''https://a''
        (snd (dbGet ''session'' ''https://b'' 2000 (core0 [session_item])))) = Inr []"
proof -
  have f: "faults (core0 [session_item]) = []" by (simp add: core0_def)
  have h1: "session_item \<in> set (items (core0 [session_item]))" by (simp add: core0_def)
  have h2: "hasPermission (acl_read session_item) ''https://a''"
    by (simp add: session_item_def)
  have h3: "expired session_item 2000" by (simp add: session_item_def expired_def)
  have h4: "store_get (items (core0 [session_item])) (item_key session_item) = Some session_item"
    by (simp add: core0_def store_get_def)
  have k: "item_key session_item = ''session''" by (simp add: session_item_def)
  from dbKeys_no_eviction [OF f h1 h2, of 2000 "''https://b''"] f h1 h2 h3 h4
  show ?thesis
    by (simp add: k dbKeys_nofault dbGet_nofault core0_def store_get_def store_delete_def)
qed

text \<open>
  C9. On a store that works, \<open>remove(k, tenant)\<close> with nothing stored under \<open>k\<close>
  succeeds and leaves the whole state as it was: no record changed, no event posted.
  Hence a \<open>remove\<close> that succeeded can be repeated: the second call succeeds and changes
  nothing.
\<close>

theorem dbRemove_absent:
  assumes "faults st = []"
  shows "(store_get (items st) k = None \<longrightarrow> dbRemove k t st = (Inr (), st))
       \<and> (fst (dbRemove k t st) = Inr () \<longrightarrow>
            dbRemove k t (snd (dbRemove k t st)) = (Inr (), snd (dbRemove k t st)))"
  using assms
  by (auto simp: dbRemove_def await_nofault store_get_delete_same
           split: option.splits if_splits)

theorem dbRemove_absent_witness:
  "faults (core0 [ex_item]) = []
   \<and> store_get (items (core0 [ex_item])) ''zz'' = None
   \<and> dbRemove ''zz'' ''https://b'' (core0 [ex_item]) = (Inr (), core0 [ex_item])
   \<and> fst (dbRemove ''k'' ''https://a'' (core0 [ex_item])) = Inr ()
   \<and> dbRemove ''k'' ''https://a'' (snd (dbRemove ''k'' ''https://a'' (core0 [ex_item]))) =
       (Inr (), snd (dbRemove ''k'' ''https://a'' (core0 [ex_item])))"
proof -
  have f: "faults (core0 [ex_item]) = []" by (simp add: core0_def)
  have h1: "store_get (items (core0 [ex_item])) ''zz'' = None"
    by (simp add: core0_def store_get_def ex_item_def)
  have h2: "fst (dbRemove ''k'' ''https://a'' (core0 [ex_item])) = Inr ()"
    by (simp add: dbRemove_def await_nofault core0_def store_get_def ex_item_def)
  from dbRemove_absent [OF f, of "''zz''" "''https://b''"]
       dbRemove_absent [OF f, of "''k''" "''https://a''"] f h1 h2
  show ?thesis by simp
qed

section \<open>Claims about error responses and the Client Proxy\<close>

text \<open>
  C7, as the spec states it, fails in one point: the core does not wrap what it
  catches. A \<open>QuotaExceededError\<close> raised by the \<open>put\<close> of a \<open>setItem\<close> goes into the
  response under its own name, not as a \<open>StorageBackendError\<close>.
\<close>

theorem store_fault_not_wrapped:
  "outbox (snd (on_message quota_event 1000 quota_core)) =
     [(7, ''https://a'',
       \<lparr>r_requestId = 0, r_value = JUndefined,
        r_error = Some (''QuotaExceededError'', ''full'')\<rparr>)]
   \<and> map_option fst
        (r_error (snd (snd (last (outbox (snd (on_message quota_event 1000 quota_core)))))))
       \<noteq> Some ''StorageBackendError''"
proof -
  have s: "ev_source quota_event = Some 7" "ev_origin quota_event = ''https://a''"
    "requestId (ev_data quota_event) = 0"
    by (simp_all add: quota_event_def)
  have "on_message quota_event 1000 quota_core =
          (None, (core0 [])\<lparr>outbox := [(7, ''https://a'',
             \<lparr>r_requestId = 0, r_value = JUndefined,
              r_error = Some (''QuotaExceededError'', ''full'')\<rparr>)]\<rparr>)"
    by (simp add: on_message_def post_response_def quota_run[unfolded s(2)] s core0_def)
  then show ?thesis by simp
qed

text \<open>
  C7, amended. Whatever the core-side operation of a request raises (a fault of the
  Durable Store included), the listener catches it and, the sender's origin not being
  opaque (\<open>event.origin\<close> is not \<open>null\<close>), posts to the requesting window a response
  with the \<open>requestId\<close> of the request and, as \<open>error\<close>, the name and message of what
  was raised, unchanged; nothing escapes the listener. A ready proxy that receives it
  from its core while the call with that id is pending rejects that call with an error
  of that name and message and forgets it; every other pending call stays pending.
\<close>

theorem core_error_response:
  assumes "ev_source ev = Some w" and "ev_origin ev \<noteq> []" and "ev_origin ev \<noteq> ''null''"
    and "run_action (ev_data ev) (ev_origin ev) now st = Some (Inl e, st1)"
    and "rid = requestId (ev_data ev)"
    and "r = \<lparr>r_requestId = rid, r_value = JUndefined,
              r_error = Some (exn_name e, exn_message e)\<rparr>"
  shows "on_message ev now st = (None, st1\<lparr>outbox := outbox st1 @ [(w, ev_origin ev, r)]\<rparr>)
       \<and> (coreState c = Ready \<and> coreOrigin c = Some og \<and> coreWindow c = Some cw
           \<and> 0 < listeners c
           \<and> map_of (pendingRequests c) rid = Some ch \<and> map_of (settled c) rid = None \<longrightarrow>
           on_window_message og (Some cw) ''response'' r c =
             c\<lparr>settled := settled c @ [(rid, Inl (exn_name e, exn_message e))],
               pendingRequests := AList.delete rid (pendingRequests c)\<rparr>
           \<and> (\<forall>rid'. rid' \<noteq> rid \<longrightarrow>
                 map_of (pendingRequests (on_window_message og (Some cw) ''response'' r c)) rid' =
                 map_of (pendingRequests c) rid'))"
proof -
  have 1: "on_message ev now st =
             (None, st1\<lparr>outbox := outbox st1 @ [(w, ev_origin ev, r)]\<rparr>)"
    using assms by (simp add: on_message_def post_response_def)
  have 2: "on_window_message og (Some cw) ''response'' r c =
             c\<lparr>settled := settled c @ [(rid, Inl (exn_name e, exn_message e))],
               pendingRequests := AList.delete rid (pendingRequests c)\<rparr>"
    if "coreState c = Ready" "coreOrigin c = Some og" "coreWindow c = Some cw"
       "0 < listeners c" "map_of (pendingRequests c) rid = Some ch" "map_of (settled c) rid = None"
    using that assms(6) by (simp add: on_window_message_once handle_message_def settle_def)
  have 3: "\<forall>rid'. rid' \<noteq> rid \<longrightarrow>
                 map_of (pendingRequests (on_window_message og (Some cw) ''response'' r c)) rid' =
                 map_of (pendingRequests c) rid'"
    if "coreState c = Ready" "coreOrigin c = Some og" "coreWindow c = Some cw"
       "0 < listeners c" "map_of (pendingRequests c) rid = Some ch" "map_of (settled c) rid = None"
    using 2[OF that] by (simp add: map_of_delete_other)
  from 1 2 3 show ?thesis by blast
qed

theorem core_error_response_witness:
  "ev_source quota_event = Some 7 \<and> ev_origin quota_event \<noteq> []
   \<and> ev_origin quota_event \<noteq> ''null''
   \<and> run_action (ev_data quota_event) (ev_origin quota_event) 1000 quota_core =
       Some (Inl (StoreFault ''QuotaExceededError'' ''full''), core0 [])
   \<and> on_message quota_event 1000 quota_core =
       (None, (core0 [])\<lparr>outbox := [(7, ''https://a'', quota_response)]\<rparr>)
   \<and> coreState busy_client = Ready \<and> coreOrigin busy_client = Some core_origin
   \<and> coreWindow busy_client = Some 0 \<and> 0 < listeners busy_client
   \<and> map_of (pendingRequests busy_client) 0 = Some NoThen
   \<and> map_of (settled busy_client) 0 = None
   \<and> settled (on_window_message core_origin (Some 0) ''response'' quota_response busy_client) =
       [(0, Inl (''QuotaExceededError'', ''full''))]
   \<and> pendingRequests
        (on_window_message core_origin (Some 0) ''response'' quota_response busy_client) =
       [(1, ThenCache ''x'')]"
proof -
  have h1: "ev_source quota_event = Some 7" by (simp add: quota_event_def)
  have h2: "ev_origin quota_event \<noteq> []" by (simp add: quota_event_def)
  have h3: "ev_origin quota_event \<noteq> ''null''" by (simp add: quota_event_def)
  have h4: "0 = requestId (ev_data quota_event)" by (simp add: quota_event_def)
  have h5: "quota_response = \<lparr>r_requestId = 0, r_value = JUndefined,
              r_error = Some (exn_name (StoreFault ''QuotaExceededError'' ''full''),
                              exn_message (StoreFault ''QuotaExceededError'' ''full''))\<rparr>"
    by (simp add: quota_response_def)
  have c: "coreState busy_client = Ready" "coreOrigin busy_client = Some core_origin"
    "coreWindow busy_client = Some 0" "0 < listeners busy_client"
    "map_of (pendingRequests busy_client) 0 = Some NoThen"
    "map_of (settled busy_client) 0 = None"
    by (simp_all add: busy_client_eq ready_client_eq client0_def)
  have o: "ev_origin quota_event = ''https://a''" by (simp add: quota_event_def)
  from core_error_response [OF h1 h2 h3 quota_run h4 h5, of busy_client core_origin 0 NoThen]
       h1 h2 h3 quota_run c
  show ?thesis
    by (simp add: o core0_def busy_client_eq ready_client_eq client0_def AList.delete_eq)
qed

text \<open>
  C8, as the spec states it, fails: in a page, \<open>init\<close> on a failed proxy starts over.
  The proxy whose iframe failed to load is \<open>failed\<close>; one call of \<open>init()\<close> makes it
  \<open>initializing\<close>.
\<close>

theorem failed_reinit:
  "coreState failed_client = Failed
   \<and> coreState (run_ops browser [Init cfg0]
        failed_client) = Initializing"
  by (simp add: failed_client_eq init_def browser_def client0_def cfg0_def origin_of_def Let_def)

text \<open>
  C8, amended. From \<open>failed\<close>, no sequence of \<open>setItem\<close>, \<open>getItem\<close>, \<open>removeItem\<close>,
  \<open>clear\<close> and \<open>keys\<close> leaves \<open>failed\<close>, and where there is no \<open>window\<close> or \<open>document\<close>
  no sequence with \<open>init\<close> does either; in a page, \<open>init\<close> moves a failed proxy to
  \<open>initializing\<close>.
\<close>

theorem failed_left_only_by_init:
  assumes "coreState c = Failed"
  shows "(\<not> has_dom e \<or> list_all (\<lambda>x. \<not> is_init x) ops \<longrightarrow>
            coreState (run_ops e ops c) = Failed)
       \<and> (has_dom e \<longrightarrow> coreState (apply_op e (Init cfg) c) = Initializing)"
proof -
  have "coreState (run_ops e ops c) = Failed"
    if "\<not> has_dom e \<or> list_all (\<lambda>x. \<not> is_init x) ops"
    using that assms
  proof (induction ops arbitrary: c)
    case Nil
    then show ?case by simp
  next
    case (Cons x xs)
    from Cons.prems have "coreState (apply_op e x c) = Failed"
      by (intro apply_op_failed) auto
    moreover from Cons.prems have "\<not> has_dom e \<or> list_all (\<lambda>x. \<not> is_init x) xs" by auto
    ultimately show ?case using Cons.IH by simp
  qed
  then show ?thesis using assms by (auto simp: init_from_failed)
qed

theorem failed_left_only_by_init_witness:
  "coreState failed_client = Failed
   \<and> list_all (\<lambda>x. \<not> is_init x) [GetItem ''x'', SetItem ''k'' (JNum 1) [], Clear]
   \<and> coreState (run_ops browser [GetItem ''x'', SetItem ''k'' (JNum 1) [], Clear] failed_client)
       = Failed
   \<and> has_dom browser
   \<and> coreState (apply_op browser (Init cfg0) failed_client) = Initializing
   \<and> coreState (run_ops no_dom [Init cfg0, Keys] failed_client) = Failed"
proof -
  have h: "coreState failed_client = Failed" by (simp add: failed_client_eq)
  have l: "list_all (\<lambda>x. \<not> is_init x) [GetItem ''x'', SetItem ''k'' (JNum 1) [], Clear]"
    by simp
  have d: "has_dom browser" "\<not> has_dom no_dom" by (simp_all add: browser_def no_dom_def)
  from failed_left_only_by_init [OF h, of browser
         "[GetItem ''x'', SetItem ''k'' (JNum 1) [], Clear]" cfg0]
       failed_left_only_by_init [OF h, of no_dom "[Init cfg0, Keys]" cfg0] h l d
  show ?thesis by blast
qed

text \<open>
  C10, as the spec states it, fails for a failed proxy: \<open>getItem\<close> of a key that is not
  cached is rejected at once, and no request is posted, queued or registered.
\<close>

theorem getItem_failed_sends_nothing:
  "cache failed_client ''x'' = None
   \<and> getItem browser ''x'' failed_client =
       (Rejected (''Error'', ''GlobalLocalStorage core is in a failed state.''),
        failed_client\<lparr>requestIdCounter := 1\<rparr>)
   \<and> posted (snd (getItem browser ''x'' failed_client)) = []
   \<and> requestQueue (snd (getItem browser ''x'' failed_client)) = []
   \<and> pendingRequests (snd (getItem browser ''x'' failed_client)) = []"
  by (simp add: failed_client_eq getItem_def sendRequest_def client0_def Let_def)

text \<open>
  C10, amended. \<open>getItem\<close> of a cached key resolves with the cached value and changes
  nothing (no request). Of a key not cached it takes the next correlation id and, when
  the proxy is ready and the origin of its core is not opaque (\<open>coreOrigin\<close> is not
  \<open>null\<close>), posts a \<open>getItem\<close> request to the core; when it is initializing (or
  uninitialized in a page, which initializes it) queues that request; when it is failed
  (or uninitialized with no page, which makes it failed) rejects the call and sends
  nothing. When the response to such a request, not settled before, carries a value,
  the value is stored in the cache under the key, \<open>null\<close> like any other, and the
  request is no longer pending.
\<close>

theorem getItem_cache:
  "(cache c k = Some v \<longrightarrow> getItem e k c = (Resolved v, c))
   \<and> (cache c k = None \<and> coreState c = Ready \<and> coreWindow c = Some w
        \<and> coreOrigin c \<noteq> Some ''null'' \<longrightarrow>
        getItem e k c =
          (Pending (requestIdCounter c),
           c\<lparr>requestIdCounter := Suc (requestIdCounter c),
             pendingRequests :=
               AList.update (requestIdCounter c) (ThenCache k) (pendingRequests c),
             posted := posted c @
               [(coreWindow c, coreOrigin c, get_message k (requestIdCounter c))]\<rparr>))
   \<and> (cache c k = None \<and> coreState c = Initializing \<longrightarrow>
        getItem e k c =
          (Pending (requestIdCounter c),
           c\<lparr>requestIdCounter := Suc (requestIdCounter c),
             pendingRequests :=
               AList.update (requestIdCounter c) (ThenCache k) (pendingRequests c),
             requestQueue := requestQueue c @ [get_message k (requestIdCounter c)]\<rparr>))
   \<and> (cache c k = None \<and> coreState c = Uninitialized \<and> has_dom e \<longrightarrow>
        fst (getItem e k c) = Pending (requestIdCounter c)
        \<and> coreState (snd (getItem e k c)) = Initializing
        \<and> map_of (pendingRequests (snd (getItem e k c))) (requestIdCounter c) =
            Some (ThenCache k)
        \<and> requestQueue (snd (getItem e k c)) =
            requestQueue c @ [get_message k (requestIdCounter c)])
   \<and> (cache c k = None \<and> coreState c = Failed \<longrightarrow>
        getItem e k c =
          (Rejected (''Error'', ''GlobalLocalStorage core is in a failed state.''),
           c\<lparr>requestIdCounter := Suc (requestIdCounter c)\<rparr>))
   \<and> (cache c k = None \<and> coreState c = Uninitialized \<and> \<not> has_dom e \<longrightarrow>
        getItem e k c =
          (Rejected (''Error'', ''GlobalLocalStorage core is in a failed state.''),
           c\<lparr>requestIdCounter := Suc (requestIdCounter c), coreState := Failed\<rparr>))
   \<and> (coreState c = Ready \<and> coreOrigin c = Some og \<and> coreWindow c = Some w
        \<and> 0 < listeners c
        \<and> map_of (pendingRequests c) (r_requestId r) = Some (ThenCache k)
        \<and> map_of (settled c) (r_requestId r) = None
        \<and> r_error r = None \<longrightarrow>
        cache (on_window_message og (Some w) ''response'' r c) k = Some (r_value r)
        \<and> map_of (pendingRequests (on_window_message og (Some w) ''response'' r c))
             (r_requestId r) = None)"
proof -
  have 1: "cache c k = Some v \<longrightarrow> getItem e k c = (Resolved v, c)"
    by (simp add: getItem_def)
  have 2: "cache c k = None \<and> coreState c = Ready \<and> coreWindow c = Some w
        \<and> coreOrigin c \<noteq> Some ''null'' \<longrightarrow>
        getItem e k c =
          (Pending (requestIdCounter c),
           c\<lparr>requestIdCounter := Suc (requestIdCounter c),
             pendingRequests :=
               AList.update (requestIdCounter c) (ThenCache k) (pendingRequests c),
             posted := posted c @
               [(coreWindow c, coreOrigin c, get_message k (requestIdCounter c))]\<rparr>)"
    by (simp add: getItem_def sendRequest_def post_to_core_def get_message_def Let_def)
  have 3: "cache c k = None \<and> coreState c = Initializing \<longrightarrow>
        getItem e k c =
          (Pending (requestIdCounter c),
           c\<lparr>requestIdCounter := Suc (requestIdCounter c),
             pendingRequests :=
               AList.update (requestIdCounter c) (ThenCache k) (pendingRequests c),
             requestQueue := requestQueue c @ [get_message k (requestIdCounter c)]\<rparr>)"
    by (simp add: getItem_def sendRequest_def get_message_def Let_def)
  have 4: "cache c k = None \<and> coreState c = Uninitialized \<and> has_dom e \<longrightarrow>
        fst (getItem e k c) = Pending (requestIdCounter c)
        \<and> coreState (snd (getItem e k c)) = Initializing
        \<and> map_of (pendingRequests (snd (getItem e k c))) (requestIdCounter c) =
            Some (ThenCache k)
        \<and> requestQueue (snd (getItem e k c)) =
            requestQueue c @ [get_message k (requestIdCounter c)]"
    by (simp add: getItem_def sendRequest_def get_message_def init_def origin_of_def Let_def
          AList.update_conv')
  have 5: "cache c k = None \<and> coreState c = Failed \<longrightarrow>
        getItem e k c =
          (Rejected (''Error'', ''GlobalLocalStorage core is in a failed state.''),
           c\<lparr>requestIdCounter := Suc (requestIdCounter c)\<rparr>)"
    by (simp add: getItem_def sendRequest_def Let_def)
  have 7: "cache c k = None \<and> coreState c = Uninitialized \<and> \<not> has_dom e \<longrightarrow>
        getItem e k c =
          (Rejected (''Error'', ''GlobalLocalStorage core is in a failed state.''),
           c\<lparr>requestIdCounter := Suc (requestIdCounter c), coreState := Failed\<rparr>)"
    by (simp add: getItem_def sendRequest_def init_def Let_def)
  have 6: "coreState c = Ready \<and> coreOrigin c = Some og \<and> coreWindow c = Some w
        \<and> 0 < listeners c
        \<and> map_of (pendingRequests c) (r_requestId r) = Some (ThenCache k)
        \<and> map_of (settled c) (r_requestId r) = None
        \<and> r_error r = None \<longrightarrow>
        cache (on_window_message og (Some w) ''response'' r c) k = Some (r_value r)
        \<and> map_of (pendingRequests (on_window_message og (Some w) ''response'' r c))
             (r_requestId r) = None"
    by (simp add: on_window_message_once handle_message_def map_of_delete_same)
  from 1 2 3 4 5 6 7 show ?thesis by blast
qed

theorem getItem_cache_witness:
  "cache ready_client ''x'' = None \<and> coreState ready_client = Ready
   \<and> coreWindow ready_client = Some 0 \<and> coreOrigin ready_client \<noteq> Some ''null''
   \<and> getItem browser ''x'' ready_client = (Pending 0, waiting_client)
   \<and> posted waiting_client = [(Some 0, Some core_origin, get_message ''x'' 0)]
   \<and> coreState waiting_client = Ready \<and> coreOrigin waiting_client = Some core_origin
   \<and> coreWindow waiting_client = Some 0 \<and> 0 < listeners waiting_client
   \<and> map_of (pendingRequests waiting_client) (r_requestId null_response) = Some (ThenCache ''x'')
   \<and> map_of (settled waiting_client) (r_requestId null_response) = None
   \<and> r_error null_response = None
   \<and> cache cached_client ''x'' = Some JNull
   \<and> getItem browser ''x'' cached_client = (Resolved JNull, cached_client)
   \<and> posted cached_client = posted waiting_client"
proof -
  have a: "cache ready_client ''x'' = None" "coreState ready_client = Ready"
    "requestIdCounter ready_client = 0" "coreWindow ready_client = Some 0"
    "coreOrigin ready_client \<noteq> Some ''null''"
    by (simp_all add: ready_client_eq client0_def core_origin_not_opaque)
  have b: "coreState waiting_client = Ready" "coreOrigin waiting_client = Some core_origin"
    "coreWindow waiting_client = Some 0" "0 < listeners waiting_client"
    "map_of (pendingRequests waiting_client) (r_requestId null_response) = Some (ThenCache ''x'')"
    "map_of (settled waiting_client) (r_requestId null_response) = None"
    "r_error null_response = None" "r_value null_response = JNull"
    "posted waiting_client = [(Some 0, Some core_origin, get_message ''x'' 0)]"
    by (simp_all add: waiting_client_eq ready_client_eq client0_def null_response_def)
  have p: "posted cached_client = posted waiting_client"
    using b by (simp add: cached_client_def on_window_message_once handle_message_def)
  from getItem_cache [of ready_client "''x''" JNull browser 0 core_origin null_response] a
  have g: "getItem browser ''x'' ready_client = (Pending 0, waiting_client)"
    by (simp add: waiting_client_eq ready_client_eq client0_def)
  from getItem_cache [of waiting_client "''x''" JNull browser 0 core_origin null_response] b
  have c: "cache cached_client ''x'' = Some JNull" by (simp add: cached_client_def)
  with getItem_cache [of cached_client "''x''" JNull browser 0 core_origin null_response]
  have "getItem browser ''x'' cached_client = (Resolved JNull, cached_client)" by blast
  with a b c p g show ?thesis by simp
qed

end
